theory Spec2Isabelle
  imports Main
begin

section \<open>Shared vocabulary\<close>

text \<open>
  The hooks of this library are functions of a React component. A hook keeps state cells
  (\<open>useState\<close>), runs an effect after a render whose dependency list changed
  (\<open>useEffect\<close>) and runs the cleanup the effect returned before the next run of that
  effect and at unmount. The embedding gives each hook a record of its state cells, one
  function per source function, and a step function over the events that the host delivers
  to the hook (a render with new arguments, a timer tick, the settling of a promise).
  A closure that reads a state cell reads the value of the render that created the closure;
  such a captured value is an explicit argument of the modelled function.

  Exceptions are values: a function that can throw returns \<open>js_error + 'a\<close>.
\<close>

datatype js_error = ReferenceError | TypeError | SyntaxError

text \<open>
  What \<open>fetch\<close> hands back: the promise rejects with an error message, or resolves to
  a response whose \<open>json()\<close> in turn rejects (\<open>Inl\<close>, with the message) or yields the
  parsed body.
\<close>

record 'a response =
  ok :: bool
  status :: nat
  statusText :: string
  json :: "string + 'a"

datatype 'a fetch_outcome = Rejected string | Resolved "'a response"

text \<open>The state cell of \<open>useFetch\<close> and \<open>useFetchRetry\<close>; \<open>null\<close> is \<open>None\<close>.\<close>

record 'a FetchState =
  data :: "'a option"
  loading :: bool
  error :: "string option"

definition json_ok :: "'a \<Rightarrow> 'a fetch_outcome" where
  "json_ok d = Resolved \<lparr> ok = True, status = 200, statusText = ''OK'', json = Inr d \<rparr>"

section \<open>useAxios\<close>

text \<open>
  Four state cells: \<open>data\<close>, \<open>loading\<close>, \<open>error\<close> and \<open>cancelled\<close>.
  \<open>makeRequest\<close> is an async function created by \<open>useCallback\<close>; every occurrence of
  \<open>cancelled\<close> in its body is the value of the render that created it, the argument
  \<open>seen_cancelled\<close> below. The function is split at its \<open>await\<close>:
  \<open>makeRequest_begin\<close> runs up to the request and says whether a request was issued,
  \<open>makeRequest_settle\<close> is the \<open>try/catch/finally\<close> continuation that runs when the
  request settles.
\<close>

record 'a axios_state =
  axios_data :: "'a option"
  axios_loading :: bool
  axios_error :: "string option"
  cancelled :: bool

definition useAxios_initial :: "'a axios_state" where
  "useAxios_initial =
     \<lparr> axios_data = None, axios_loading = False, axios_error = None, cancelled = False \<rparr>"

text \<open>
  A request resolves with a response, rejects with an \<open>AxiosError\<close> (its message is
  shown) or rejects with anything else (the fixed message is shown).
\<close>

datatype 'a axios_outcome = AxiosResponse 'a | AxiosError string | OtherError

definition cancelRequest :: "'a axios_state \<Rightarrow> 'a axios_state" where
  "cancelRequest st = st\<lparr> cancelled := True \<rparr>"

definition makeRequest_begin :: "bool \<Rightarrow> 'a axios_state \<Rightarrow> 'a axios_state \<times> bool" where
  "makeRequest_begin seen_cancelled st =
     (if seen_cancelled then (st, False)
      else (st\<lparr> axios_loading := True, axios_error := None \<rparr>, True))"

definition makeRequest_settle ::
  "bool \<Rightarrow> 'a axios_outcome \<Rightarrow> 'a axios_state \<Rightarrow> 'a axios_state" where
  "makeRequest_settle seen_cancelled out st =
     (let st1 =
        (case out of
           AxiosResponse d \<Rightarrow> if \<not> seen_cancelled then st\<lparr> axios_data := Some d \<rparr> else st
         | AxiosError msg \<Rightarrow> if \<not> seen_cancelled then st\<lparr> axios_error := Some msg \<rparr> else st
         | OtherError \<Rightarrow>
             if \<not> seen_cancelled then st\<lparr> axios_error := Some ''An error occurred'' \<rparr> else st)
      in if \<not> seen_cancelled then st1\<lparr> axios_loading := False \<rparr> else st1)"

text \<open>
  The mounted hook: its cells and, for every request in flight, the \<open>cancelled\<close> value
  its closure holds. \<open>MakeRequest\<close> calls the \<open>makeRequest\<close> of the latest render,
  \<open>CancelRequest\<close> calls \<open>cancelRequest\<close>, \<open>Settle i out\<close> settles the i-th request
  in flight.
\<close>

record 'a axios_hook =
  axios_cell :: "'a axios_state"
  axios_inflight :: "bool list"

datatype 'a axios_event = MakeRequest | CancelRequest | Settle nat "'a axios_outcome"

definition useAxios_mount :: "'a axios_hook" where
  "useAxios_mount = \<lparr> axios_cell = useAxios_initial, axios_inflight = [] \<rparr>"

fun useAxios_step :: "'a axios_event \<Rightarrow> 'a axios_hook \<Rightarrow> 'a axios_hook" where
  "useAxios_step MakeRequest h =
     (case makeRequest_begin (cancelled (axios_cell h)) (axios_cell h) of
        (st, issued) \<Rightarrow>
          h\<lparr> axios_cell := st,
             axios_inflight :=
               axios_inflight h @ (if issued then [cancelled (axios_cell h)] else []) \<rparr>)"
| "useAxios_step CancelRequest h = h\<lparr> axios_cell := cancelRequest (axios_cell h) \<rparr>"
| "useAxios_step (Settle i out) h =
     (if i < length (axios_inflight h)
      then h\<lparr> axios_cell := makeRequest_settle (axios_inflight h ! i) out (axios_cell h),
              axios_inflight := take i (axios_inflight h) @ drop (Suc i) (axios_inflight h) \<rparr>
      else h)"

definition useAxios_run :: "'a axios_hook \<Rightarrow> 'a axios_event list \<Rightarrow> 'a axios_hook" where
  "useAxios_run h evs = fold useAxios_step evs h"

section \<open>useAdvReducer\<close>

text \<open>
  \<^verbatim>\<open>(state = initialState, action) => {
     if (actions[action.type]) return actions[action.type](state, action);
     return state; }\<close>
  \<open>actions\<close> is a JavaScript object used as a table from action types to handlers. The
  entries the caller wrote are its own properties, a map here. The source reads the table
  with the property lookup \<open>actions[k]\<close>, which for an object literal falls back to
  \<open>Object.prototype\<close> when \<open>k\<close> is not an own property: eleven inherited methods,
  and the accessor \<open>__proto__\<close>, whose value is the prototype object itself (truthy, not
  callable). A missing \<open>state\<close> argument (\<open>undefined\<close>, \<open>None\<close> here) is replaced
  by \<open>initialState\<close>.
\<close>

record 'p action =
  action_type :: string
  payload :: 'p

datatype ('s, 'p) property =
    Handler "'s \<Rightarrow> 'p action \<Rightarrow> 's"
  | InheritedMethod string
  | InheritedObject

definition Object_prototype_methods :: "string list" where
  "Object_prototype_methods =
     [''constructor'', ''__defineGetter__'', ''__defineSetter__'', ''hasOwnProperty'',
      ''__lookupGetter__'', ''__lookupSetter__'', ''isPrototypeOf'',
      ''propertyIsEnumerable'', ''toString'', ''valueOf'', ''toLocaleString'']"

definition inherited_name :: "string \<Rightarrow> bool" where
  "inherited_name k = (k = ''__proto__'' \<or> k \<in> set Object_prototype_methods)"

definition property_lookup ::
  "(string \<rightharpoonup> ('s \<Rightarrow> 'p action \<Rightarrow> 's)) \<Rightarrow> string \<Rightarrow> ('s, 'p) property option" where
  "property_lookup actions k =
     (case actions k of
        Some h \<Rightarrow> Some (Handler h)
      | None \<Rightarrow>
          if k = ''__proto__'' then Some InheritedObject
          else if k \<in> set Object_prototype_methods then Some (InheritedMethod k)
          else None)"

text \<open>
  What a call of the reducer produces: a state; or what an inherited method does when it
  is called on \<open>actions\<close> with the arguments \<open>(state, action)\<close>; or the TypeError of
  calling a value that is not a function. Of the inherited methods, \<open>toString\<close> returns
  the string \<open>[object Object]\<close>; \<open>toLocaleString\<close> calls \<open>this.toString()\<close> and
  so returns the same string unless the table has an own entry \<open>toString\<close>;
  \<open>__defineGetter__\<close> and \<open>__defineSetter__\<close> throw a TypeError, since their second
  argument, the action, is not a function. The results of the other methods, and of
  \<open>toLocaleString\<close> over an own \<open>toString\<close>, are not computed here:
  \<open>BuiltinValue\<close> names the method and stands for whatever it returns (for
  \<open>constructor\<close> that is \<open>Object(state)\<close>, and for \<open>valueOf\<close> the table itself).
\<close>

datatype 's reducer_result =
    State 's
  | StringValue string
  | BuiltinValue string
  | Threw js_error

definition useAdvReducer ::
  "'s \<Rightarrow> (string \<rightharpoonup> ('s \<Rightarrow> 'p action \<Rightarrow> 's)) \<Rightarrow> 's option \<Rightarrow> 'p action
     \<Rightarrow> 's reducer_result" where
  "useAdvReducer initialState actions state_arg action =
     (let state = (case state_arg of None \<Rightarrow> initialState | Some s \<Rightarrow> s) in
      case property_lookup actions (action_type action) of
        Some (Handler h) \<Rightarrow> State (h state action)
      | Some (InheritedMethod m) \<Rightarrow>
          if m = ''toString'' then StringValue ''[object Object]''
          else if m = ''toLocaleString'' \<and> actions ''toString'' = None
            then StringValue ''[object Object]''
          else if m = ''__defineGetter__'' \<or> m = ''__defineSetter__'' then Threw TypeError
          else BuiltinValue m
      | Some InheritedObject \<Rightarrow> Threw TypeError
      | None \<Rightarrow> State state)"

section \<open>useFetch\<close>

text \<open>
  The effect depends on \<open>[url]\<close>, starts \<open>fetchData\<close> and returns no cleanup.
  \<open>fetchData\<close> awaits the response and then writes the whole state cell, in the
  \<open>try\<close> branch or in the \<open>catch\<close> branch; it reads no flag before it writes.
\<close>

definition useFetch_initial :: "'a FetchState" where
  "useFetch_initial = \<lparr> data = None, loading = True, error = None \<rparr>"

definition useFetch_attempt :: "'a fetch_outcome \<Rightarrow> string + 'a" where
  "useFetch_attempt out =
     (case out of
        Rejected msg \<Rightarrow> Inl msg
      | Resolved r \<Rightarrow> if \<not> ok r then Inl (''Error: '' @ statusText r) else json r)"

definition fetchData_settle :: "'a fetch_outcome \<Rightarrow> 'a FetchState" where
  "fetchData_settle out =
     (case useFetch_attempt out of
        Inr d \<Rightarrow> \<lparr> data = Some d, loading = False, error = None \<rparr>
      | Inl msg \<Rightarrow> \<lparr> data = None, loading = False, error = Some msg \<rparr>)"

text \<open>
  The mounted hook: its cell, the url of the latest render, and the urls of the fetches
  that were started and have not settled. A render with another url runs the effect again,
  which starts one more fetch and stops none.
\<close>

record 'a fetch_hook =
  fetch_cell :: "'a FetchState"
  fetch_url :: string
  fetch_inflight :: "string list"

datatype 'a fetch_event = Rerender string | Settled nat "'a fetch_outcome"

definition useFetch_mount :: "string \<Rightarrow> 'a fetch_hook" where
  "useFetch_mount url =
     \<lparr> fetch_cell = useFetch_initial, fetch_url = url, fetch_inflight = [url] \<rparr>"

fun useFetch_step :: "'a fetch_event \<Rightarrow> 'a fetch_hook \<Rightarrow> 'a fetch_hook" where
  "useFetch_step (Rerender url) h =
     (if url = fetch_url h then h
      else h\<lparr> fetch_url := url, fetch_inflight := fetch_inflight h @ [url] \<rparr>)"
| "useFetch_step (Settled i out) h =
     (if i < length (fetch_inflight h)
      then h\<lparr> fetch_cell := fetchData_settle out,
              fetch_inflight := take i (fetch_inflight h) @ drop (Suc i) (fetch_inflight h) \<rparr>
      else h)"

definition useFetch_run :: "'a fetch_hook \<Rightarrow> 'a fetch_event list \<Rightarrow> 'a fetch_hook" where
  "useFetch_run h evs = fold useFetch_step evs h"

section \<open>useLocalStorage and usePersistedState\<close>

text \<open>
  Both hooks compute their initial state from \<open>localStorage.getItem(key)\<close> with
  \<open>item ? JSON.parse(item) : initialValue\<close>; \<open>useLocalStorage\<close> does so inside
  \<open>try { ... } catch { return initialValue }\<close>, \<open>usePersistedState\<close> without a
  \<open>try\<close>. The store is a map from keys to strings, \<open>None\<close> where the global
  \<open>localStorage\<close> is not defined. \<open>JSON.parse\<close> belongs to the host and is the
  parameter \<open>parse\<close>: \<open>parse s = None\<close> when \<open>JSON.parse(s)\<close> throws a SyntaxError.
  The empty string and \<open>null\<close> are the falsy items.
\<close>

type_synonym storage = "string \<rightharpoonup> string"

definition useLocalStorage ::
  "(string \<Rightarrow> 'a option) \<Rightarrow> storage option \<Rightarrow> string \<Rightarrow> 'a \<Rightarrow> js_error + 'a" where
  "useLocalStorage parse localStorage key initialValue =
     (let attempt =
        (case localStorage of
           None \<Rightarrow> Inl ReferenceError
         | Some store \<Rightarrow>
             (case store key of
                None \<Rightarrow> Inr initialValue
              | Some item \<Rightarrow>
                  if item = [] then Inr initialValue
                  else (case parse item of None \<Rightarrow> Inl SyntaxError | Some v \<Rightarrow> Inr v)))
      in case attempt of Inl e \<Rightarrow> Inr initialValue | Inr v \<Rightarrow> Inr v)"

definition usePersistedState ::
  "(string \<Rightarrow> 'a option) \<Rightarrow> storage option \<Rightarrow> string \<Rightarrow> 'a \<Rightarrow> js_error + 'a" where
  "usePersistedState parse localStorage key initialValue =
     (case localStorage of
        None \<Rightarrow> Inl ReferenceError
      | Some store \<Rightarrow>
          (case store key of
             None \<Rightarrow> Inr initialValue
           | Some saved \<Rightarrow>
               if saved = [] then Inr initialValue
               else (case parse saved of None \<Rightarrow> Inl SyntaxError | Some v \<Rightarrow> Inr v)))"

text \<open>
  A parser for examples: \<open>JSON.parse\<close> on the two texts of the JSON booleans; it is
  applied below only to these and to a text that is not JSON.
\<close>

definition parse_boolean :: "string \<Rightarrow> bool option" where
  "parse_boolean s =
     (if s = ''true'' then Some True else if s = ''false'' then Some False else None)"

section \<open>Timers of the host\<close>

text \<open>
  \<open>setTimeout\<close> registers a callback and returns its handle; \<open>clearTimeout\<close> removes
  the timer with that handle. Every callback in the hooks below is
  \<open>() => setValue(value)\<close> for a value fixed when the timer is set, so a timer stores
  that value. A negative delay counts as zero. Times are in milliseconds. The table holds
  the timers that one hook instance has set; handles are positive, as in a browser.
\<close>

record 'a timer =
  timer_id :: nat
  due :: int
  callback_value :: 'a

record 'a timer_host =
  timers :: "'a timer list"
  next_id :: nat

definition no_timers :: "'a timer_host" where
  "no_timers = \<lparr> timers = [], next_id = 1 \<rparr>"

definition setTimeout :: "'a \<Rightarrow> int \<Rightarrow> int \<Rightarrow> 'a timer_host \<Rightarrow> nat \<times> 'a timer_host" where
  "setTimeout v delay now host =
     (next_id host,
      host\<lparr> timers := timers host
               @ [\<lparr> timer_id = next_id host, due = now + max delay 0, callback_value = v \<rparr>],
            next_id := Suc (next_id host) \<rparr>)"

definition clearTimeout :: "nat \<Rightarrow> 'a timer_host \<Rightarrow> 'a timer_host" where
  "clearTimeout handler host =
     host\<lparr> timers := filter (\<lambda>x. timer_id x \<noteq> handler) (timers host) \<rparr>"

definition due_timers :: "int \<Rightarrow> 'a timer_host \<Rightarrow> 'a timer list" where
  "due_timers now host = filter (\<lambda>x. due x \<le> now) (timers host)"

definition drop_due :: "int \<Rightarrow> 'a timer_host \<Rightarrow> 'a timer_host" where
  "drop_due now host = host\<lparr> timers := filter (\<lambda>x. \<not> due x \<le> now) (timers host) \<rparr>"

section \<open>useDebounce\<close>

text \<open>
  \<^verbatim>\<open>const [debouncedValue, setDebouncedValue] = useState(value);
  useEffect(() => {
    const handler = setTimeout(() => setDebouncedValue(value), delay);
    return () => clearTimeout(handler);
  }, [value, delay]);\<close>
  The host delivers two kinds of events. \<open>Render now v delay\<close> is a render of the
  component with the arguments \<open>(v, delay)\<close> at time \<open>now\<close>: when the dependency list
  differs from that of the last run, the cleanup of the last run and then the effect run.
  \<open>Tick now\<close> is the host's event loop running the timers that are due at \<open>now\<close>; the
  host may run a timer later than it is due, never earlier. \<open>useDebounce_mount\<close> is
  the first render: the cell starts as the value and the effect runs. The record holds the
  cell, the dependency list and the handle of the last effect run, the timers, and a log
  of every call of \<open>setDebouncedValue\<close> with its time.
\<close>

datatype 'a event = Render int 'a int | Tick int

record 'a debounce_hook =
  debouncedValue :: 'a
  debounce_deps :: "'a \<times> int"
  debounce_handler :: nat
  debounce_host :: "'a timer_host"
  debounce_commits :: "(int \<times> 'a) list"

definition useDebounce_effect :: "int \<Rightarrow> 'a \<Rightarrow> int \<Rightarrow> 'a debounce_hook \<Rightarrow> 'a debounce_hook" where
  "useDebounce_effect now v delay h =
     (case setTimeout v delay now (debounce_host h) of
        (handler, host') \<Rightarrow>
          h\<lparr> debounce_deps := (v, delay), debounce_handler := handler, debounce_host := host' \<rparr>)"

definition useDebounce_cleanup :: "'a debounce_hook \<Rightarrow> 'a debounce_hook" where
  "useDebounce_cleanup h = h\<lparr> debounce_host := clearTimeout (debounce_handler h) (debounce_host h) \<rparr>"

definition useDebounce_mount :: "int \<Rightarrow> 'a \<Rightarrow> int \<Rightarrow> 'a debounce_hook" where
  "useDebounce_mount now v delay =
     useDebounce_effect now v delay
       \<lparr> debouncedValue = v, debounce_deps = (v, delay), debounce_handler = 0,
         debounce_host = no_timers, debounce_commits = [] \<rparr>"

definition useDebounce_render :: "int \<Rightarrow> 'a \<Rightarrow> int \<Rightarrow> 'a debounce_hook \<Rightarrow> 'a debounce_hook" where
  "useDebounce_render now v delay h =
     (if debounce_deps h = (v, delay) then h
      else useDebounce_effect now v delay (useDebounce_cleanup h))"

definition useDebounce_fire :: "int \<Rightarrow> 'a timer \<Rightarrow> 'a debounce_hook \<Rightarrow> 'a debounce_hook" where
  "useDebounce_fire now x h =
     h\<lparr> debouncedValue := callback_value x,
        debounce_commits := debounce_commits h @ [(now, callback_value x)] \<rparr>"

definition useDebounce_tick :: "int \<Rightarrow> 'a debounce_hook \<Rightarrow> 'a debounce_hook" where
  "useDebounce_tick now h =
     fold (useDebounce_fire now) (due_timers now (debounce_host h))
       (h\<lparr> debounce_host := drop_due now (debounce_host h) \<rparr>)"

fun useDebounce_step :: "'a event \<Rightarrow> 'a debounce_hook \<Rightarrow> 'a debounce_hook" where
  "useDebounce_step (Render now v delay) h = useDebounce_render now v delay h"
| "useDebounce_step (Tick now) h = useDebounce_tick now h"

definition useDebounce_run :: "'a debounce_hook \<Rightarrow> 'a event list \<Rightarrow> 'a debounce_hook" where
  "useDebounce_run h evs = fold useDebounce_step evs h"

section \<open>useThrottle\<close>

text \<open>
  \<^verbatim>\<open>const [throttledValue, setThrottledValue] = useState(value);
  useEffect(() => {
    const handler = setTimeout(() => setThrottledValue(value), limit);
    return () => clearTimeout(handler);
  }, [value, limit]);\<close>
\<close>

record 'a throttle_hook =
  throttledValue :: 'a
  throttle_deps :: "'a \<times> int"
  throttle_handler :: nat
  throttle_host :: "'a timer_host"
  throttle_commits :: "(int \<times> 'a) list"

definition useThrottle_effect :: "int \<Rightarrow> 'a \<Rightarrow> int \<Rightarrow> 'a throttle_hook \<Rightarrow> 'a throttle_hook" where
  "useThrottle_effect now v limit h =
     (case setTimeout v limit now (throttle_host h) of
        (handler, host') \<Rightarrow>
          h\<lparr> throttle_deps := (v, limit), throttle_handler := handler, throttle_host := host' \<rparr>)"

definition useThrottle_cleanup :: "'a throttle_hook \<Rightarrow> 'a throttle_hook" where
  "useThrottle_cleanup h = h\<lparr> throttle_host := clearTimeout (throttle_handler h) (throttle_host h) \<rparr>"

definition useThrottle_mount :: "int \<Rightarrow> 'a \<Rightarrow> int \<Rightarrow> 'a throttle_hook" where
  "useThrottle_mount now v limit =
     useThrottle_effect now v limit
       \<lparr> throttledValue = v, throttle_deps = (v, limit), throttle_handler = 0,
         throttle_host = no_timers, throttle_commits = [] \<rparr>"

definition useThrottle_render :: "int \<Rightarrow> 'a \<Rightarrow> int \<Rightarrow> 'a throttle_hook \<Rightarrow> 'a throttle_hook" where
  "useThrottle_render now v limit h =
     (if throttle_deps h = (v, limit) then h
      else useThrottle_effect now v limit (useThrottle_cleanup h))"

definition useThrottle_fire :: "int \<Rightarrow> 'a timer \<Rightarrow> 'a throttle_hook \<Rightarrow> 'a throttle_hook" where
  "useThrottle_fire now x h =
     h\<lparr> throttledValue := callback_value x,
        throttle_commits := throttle_commits h @ [(now, callback_value x)] \<rparr>"

definition useThrottle_tick :: "int \<Rightarrow> 'a throttle_hook \<Rightarrow> 'a throttle_hook" where
  "useThrottle_tick now h =
     fold (useThrottle_fire now) (due_timers now (throttle_host h))
       (h\<lparr> throttle_host := drop_due now (throttle_host h) \<rparr>)"

fun useThrottle_step :: "'a event \<Rightarrow> 'a throttle_hook \<Rightarrow> 'a throttle_hook" where
  "useThrottle_step (Render now v limit) h = useThrottle_render now v limit h"
| "useThrottle_step (Tick now) h = useThrottle_tick now h"

definition useThrottle_run :: "'a throttle_hook \<Rightarrow> 'a event list \<Rightarrow> 'a throttle_hook" where
  "useThrottle_run h evs = fold useThrottle_step evs h"

text \<open>The state cells of the two hooks hold the same contents.\<close>

definition same_policy_state :: "'a throttle_hook \<Rightarrow> 'a debounce_hook \<Rightarrow> bool" where
  "same_policy_state x y =
     (throttledValue x = debouncedValue y \<and> throttle_deps x = debounce_deps y
      \<and> throttle_handler x = debounce_handler y \<and> throttle_host x = debounce_host y
      \<and> throttle_commits x = debounce_commits y)"

text \<open>
  A trace for examples: the value changes every 60 ms while the limit is 100 ms, and the
  host runs its timers at 100, 200 and 300 ms.
\<close>

definition steady_updates :: "nat event list" where
  "steady_updates =
     [Render 60 1 100, Tick 100, Render 120 2 100, Render 180 3 100, Tick 200,
      Render 240 4 100, Tick 300]"

text \<open>
  A burst after a mount at time \<open>t0\<close> with value \<open>v0\<close>: events in time order, in which
  every render keeps the delay, changes the value, and comes less than \<open>delay\<close> after the
  previous update (the mount or the previous such render). \<open>last_update\<close> is the time and
  value of the last update, \<open>tick_times\<close> the times at which the host ran timers, and
  \<open>firing_ticks\<close> those of them at which the timer of the last update was due.
\<close>

fun last_update :: "int \<times> 'a \<Rightarrow> 'a event list \<Rightarrow> int \<times> 'a" where
  "last_update u [] = u"
| "last_update u (Render t v d # es) = last_update (t, v) es"
| "last_update u (Tick t # es) = last_update u es"

fun tick_times :: "'a event list \<Rightarrow> int list" where
  "tick_times [] = []"
| "tick_times (Render t v d # es) = tick_times es"
| "tick_times (Tick t # es) = t # tick_times es"

fun burst :: "int \<Rightarrow> int \<times> 'a \<Rightarrow> int \<Rightarrow> 'a event list \<Rightarrow> bool" where
  "burst delay u now [] = True"
| "burst delay u now (Tick t # es) = (now \<le> t \<and> burst delay u t es)"
| "burst delay u now (Render t v d # es) =
     (now \<le> t \<and> d = delay \<and> t - fst u < delay \<and> v \<noteq> snd u \<and> burst delay (t, v) t es)"

definition firing_ticks :: "int \<Rightarrow> int \<times> 'a \<Rightarrow> 'a event list \<Rightarrow> int list" where
  "firing_ticks delay u evs =
     filter (\<lambda>t. fst (last_update u evs) + max delay 0 \<le> t) (tick_times evs)"

definition pending_commits :: "'a timer_host \<Rightarrow> (int \<times> 'a) list" where
  "pending_commits host = map (\<lambda>x. (due x, callback_value x)) (timers host)"

text \<open>Every timer of the host is the one the latest effect run holds the handle of.\<close>

definition sole_timer :: "'a debounce_hook \<Rightarrow> bool" where
  "sole_timer h = list_all (\<lambda>x. timer_id x = debounce_handler h) (timers (debounce_host h))"

section \<open>The environment: useWindowSize and useBattery\<close>

text \<open>
  The globals a hook reads. \<open>window\<close> is \<open>None\<close> where the global is not defined
  (a read of it then throws a ReferenceError); \<open>getBattery\<close> is \<open>None\<close> where
  \<open>navigator.getBattery\<close> is not a function (a call of it then throws a TypeError),
  and otherwise holds the battery manager its promise resolves to.
  \<open>isReady\<close> is the source's probe:
  \<^verbatim>\<open>typeof window !== "undefined" && typeof window.document !== "undefined"\<close>.
  The numbers of the battery manager are of an abstract type \<open>'n\<close>.
\<close>

record window_object =
  has_document :: bool
  innerWidth :: int
  innerHeight :: int

record 'n BatteryManager =
  level :: 'n
  charging :: bool
  chargingTime :: 'n
  dischargingTime :: 'n

record 'n environment =
  window :: "window_object option"
  getBattery :: "'n BatteryManager option"

definition isReady :: "'n environment \<Rightarrow> bool" where
  "isReady env = (case window env of None \<Rightarrow> False | Some w \<Rightarrow> has_document w)"

text \<open>
  \<open>useWindowSize\<close> reads \<open>window.innerWidth\<close> and \<open>window.innerHeight\<close> in the
  initial value of its state, during the first render, with no probe before the read. Its
  result type has the two fields below and no other.
\<close>

record WindowSize =
  width :: int
  height :: int

definition useWindowSize :: "'n environment \<Rightarrow> js_error + WindowSize" where
  "useWindowSize env =
     (case window env of
        None \<Rightarrow> Inl ReferenceError
      | Some w \<Rightarrow> Inr \<lparr> width = innerWidth w, height = innerHeight w \<rparr>)"

text \<open>
  \<open>useBattery\<close>: the effect body up to the call of \<open>getBattery\<close>. It returns the
  state cell and what the effect left behind: nothing in an environment that is not ready,
  or the pending request whose resolution calls \<open>handleBatteryChange\<close>. The field
  \<open>loading\<close> of the source is \<open>battery_loading\<close> here, and likewise for the fields that
  share a name with the battery manager's.
\<close>

record 'n BatteryState =
  supported :: bool
  battery_loading :: bool
  battery_level :: "'n option"
  battery_charging :: "bool option"
  battery_chargingTime :: "'n option"
  battery_dischargingTime :: "'n option"

definition useBattery_initial :: "'n BatteryState" where
  "useBattery_initial =
     \<lparr> supported = True, battery_loading = True, battery_level = None, battery_charging = None,
       battery_chargingTime = None, battery_dischargingTime = None \<rparr>"

definition handleBatteryChange :: "'n BatteryManager \<Rightarrow> 'n BatteryState" where
  "handleBatteryChange battery =
     \<lparr> supported = True, battery_loading = False, battery_level = Some (level battery),
       battery_charging = Some (charging battery),
       battery_chargingTime = Some (chargingTime battery),
       battery_dischargingTime = Some (dischargingTime battery) \<rparr>"

datatype 'n battery_effect = Unsupported | Requested "'n BatteryManager"

definition useBattery_effect ::
  "'n environment \<Rightarrow> 'n BatteryState \<Rightarrow> js_error + ('n BatteryState \<times> 'n battery_effect)" where
  "useBattery_effect env st =
     (if \<not> isReady env
      then Inr (st\<lparr> supported := False, battery_loading := False \<rparr>, Unsupported)
      else (case getBattery env of
              None \<Rightarrow> Inl TypeError
            | Some battery \<Rightarrow> Inr (st, Requested battery)))"

text \<open>An environment with no \<open>window\<close>, as in a render on a server.\<close>

definition server_environment :: "nat environment" where
  "server_environment = \<lparr> window = None, getBattery = None \<rparr>"

section \<open>useStep\<close>

text \<open>
  The hook keeps one state variable, \<open>currentStepIndex\<close>, initialised to 0, and three
  commands that update it through a functional state update:
  \<^verbatim>\<open>next     = () => setCurrentStepIndex((i) => Math.min(i + 1, steps.length - 1))\<close>
  \<^verbatim>\<open>previous = () => setCurrentStepIndex((i) => Math.max(i - 1, 0))\<close>
  \<^verbatim>\<open>reset    = () => setCurrentStepIndex(0)\<close>
  The index is a JavaScript number that only ever holds small integers, so it is an
  \<open>int\<close> here; \<open>steps.length - 1\<close> is \<open>-1\<close> for the empty list.
\<close>

datatype step_command = Next | Previous | Reset

definition useStep_initial :: int where
  "useStep_initial = 0"

definition useStep_next :: "'a list \<Rightarrow> int \<Rightarrow> int" where
  "useStep_next steps i = min (i + 1) (int (length steps) - 1)"

definition useStep_previous :: "int \<Rightarrow> int" where
  "useStep_previous i = max (i - 1) 0"

definition useStep_reset :: "int \<Rightarrow> int" where
  "useStep_reset i = 0"

fun useStep_command :: "'a list \<Rightarrow> step_command \<Rightarrow> int \<Rightarrow> int" where
  "useStep_command steps Next i = useStep_next steps i"
| "useStep_command steps Previous i = useStep_previous i"
| "useStep_command steps Reset i = useStep_reset i"

fun useStep_run :: "'a list \<Rightarrow> int \<Rightarrow> step_command list \<Rightarrow> int" where
  "useStep_run steps i [] = i"
| "useStep_run steps i (c # cs) = useStep_run steps (useStep_command steps c i) cs"

text \<open>
  What a render returns. \<open>steps[currentStepIndex]\<close> is \<open>undefined\<close> outside the
  list, which is \<open>None\<close> here.
\<close>

record 'a step_view =
  currentStep :: "'a option"
  currentStepIndex :: int
  isFirstStep :: bool
  isLastStep :: bool

definition useStep :: "'a list \<Rightarrow> int \<Rightarrow> 'a step_view" where
  "useStep steps i =
     \<lparr> currentStep = (if 0 \<le> i \<and> i < int (length steps) then Some (steps ! nat i) else None),
       currentStepIndex = i,
       isFirstStep = (i = 0),
       isLastStep = (i = int (length steps) - 1) \<rparr>"

definition step_in_range :: "'a list \<Rightarrow> int \<Rightarrow> bool" where
  "step_in_range steps i = (0 \<le> i \<and> i \<le> int (length steps) - 1)"

section \<open>useFetchRetry\<close>

text \<open>
  \<^verbatim>\<open>let attempts = 0;
  while (attempts < retries) {
    try {
      const response = await fetch(url, options);
      if (!response.ok) throw new Error(`HTTP error! status: ${response.status}`);
      const data = await response.json();
      setState({ data, error: null, loading: false });
      return;
    } catch (error) {
      attempts++;
      if (attempts >= retries) setState({ data: null, error: error.message, loading: false });
    }
  }\<close>
  \<open>retries\<close> counts attempts and is an integer here, zero and negative values included.
  The argument \<open>fetch\<close> of the loop gives the outcome of the n-th call of \<open>fetch\<close> that
  one run of \<open>fetchData\<close> makes. The loop carries the source's counter \<open>attempts\<close>
  and, beside it, the number of calls of \<open>fetch\<close> made so far; it returns the state cell
  and that number. \<open>string_of_nat\<close> is the decimal text of the status in the template
  string.
\<close>

definition digit_char :: "nat \<Rightarrow> char" where
  "digit_char d = ''0123456789'' ! d"

fun string_of_nat :: "nat \<Rightarrow> string" where
  "string_of_nat n =
     (if n < 10 then [digit_char n] else string_of_nat (n div 10) @ [digit_char (n mod 10)])"

declare string_of_nat.simps [simp del]

definition retry_attempt :: "'a fetch_outcome \<Rightarrow> string + 'a" where
  "retry_attempt out =
     (case out of
        Rejected msg \<Rightarrow> Inl msg
      | Resolved r \<Rightarrow>
          if \<not> ok r then Inl (''HTTP error! status: '' @ string_of_nat (status r))
          else json r)"

function fetchData_loop ::
  "int \<Rightarrow> (nat \<Rightarrow> 'a fetch_outcome) \<Rightarrow> int \<Rightarrow> nat \<Rightarrow> 'a FetchState
     \<Rightarrow> 'a FetchState \<times> nat" where
  "fetchData_loop retries fetch attempts calls st =
     (if attempts < retries then
        (case retry_attempt (fetch calls) of
           Inr d \<Rightarrow> (\<lparr> data = Some d, loading = False, error = None \<rparr>, Suc calls)
         | Inl msg \<Rightarrow>
             fetchData_loop retries fetch (attempts + 1) (Suc calls)
               (if attempts + 1 \<ge> retries
                then \<lparr> data = None, loading = False, error = Some msg \<rparr> else st))
      else (st, calls))"
  by pat_completeness auto
termination
  by (relation "measure (\<lambda>(retries, fetch, attempts, calls, st). nat (retries - attempts))") auto

declare fetchData_loop.simps [simp del]

definition fetchData ::
  "int \<Rightarrow> (nat \<Rightarrow> 'a fetch_outcome) \<Rightarrow> 'a FetchState \<Rightarrow> 'a FetchState \<times> nat" where
  "fetchData retries fetch st = fetchData_loop retries fetch 0 0 st"

definition useFetchRetry_initial :: "'a FetchState" where
  "useFetchRetry_initial = \<lparr> data = None, loading = True, error = None \<rparr>"

text \<open>
  The arguments of one render of the hook. \<open>options\<close> is an object, and the dependency
  test of \<open>useEffect\<close> compares it by identity (\<open>Object.is\<close>): \<open>arg_options\<close> is
  the identity of the object passed, so an object literal written in the component is a
  new identity at every render.
\<close>

record render_args =
  arg_url :: string
  arg_options :: nat
  arg_retries :: int

text \<open>
  The effect depends on \<open>[url, options, retries]\<close>: it runs after the first render and
  after every render at which one of the three differs from the render before, and each of
  its runs calls \<open>fetchData\<close>, which starts with \<open>attempts = 0\<close>. A list of renders,
  each with its arguments and the outcomes that a run started by it would meet, gives the
  final cell and the number of calls of \<open>fetch\<close> made by each run. \<open>prev\<close> holds the
  arguments of the render before, \<open>None\<close> before the first render. Every commit of the
  cell renders the component again, so a run that commits is followed by a render; what
  that render passes is the component's choice. Each run is taken to finish before the
  next render.
\<close>

fun useFetchRetry_renders ::
  "render_args option \<Rightarrow> (render_args \<times> (nat \<Rightarrow> 'a fetch_outcome)) list \<Rightarrow> 'a FetchState
     \<Rightarrow> 'a FetchState \<times> nat list" where
  "useFetchRetry_renders prev [] st = (st, [])"
| "useFetchRetry_renders prev ((args, fetch) # rs) st =
     (if prev = Some args then useFetchRetry_renders prev rs st
      else
        (case fetchData (arg_retries args) fetch st of
           (st', n) \<Rightarrow>
             (case useFetchRetry_renders (Some args) rs st' of
                (st'', ns) \<Rightarrow> (st'', n # ns))))"

text \<open>
  Outcomes for examples: a server that always answers with a status from 500 on, and one
  that recovers on the third call.
\<close>

definition sample_failing :: "nat \<Rightarrow> int fetch_outcome" where
  "sample_failing i =
     Resolved \<lparr> ok = False, status = 500 + i, statusText = ''Server Error'', json = Inr 0 \<rparr>"

definition sample_recovering :: "nat \<Rightarrow> int fetch_outcome" where
  "sample_recovering i =
     (if i < 2 then Rejected ''Failed to fetch''
      else Resolved \<lparr> ok = True, status = 200, statusText = ''OK'', json = Inr 5 \<rparr>)"

section \<open>Listeners and observers: useHover, useResizeObserver, useIntersectionObserver\<close>

text \<open>
  The part of the document the hooks register with: for every node the list of its event
  listeners (event type and identity of the listener function), and the list of
  observations (identity of the observer and the observed node). Adding a listener or an
  observation that is already present changes nothing, as in the DOM. A function or an
  observer created by an effect run has a fresh identity, taken from \<open>next_fresh\<close>.
  A ref is a mutable cell; a function that reads \<open>ref.current\<close> takes the value the
  cell holds when the function runs.
\<close>

type_synonym node = nat

record dom =
  listeners :: "node \<Rightarrow> (string \<times> nat) list"
  observations :: "(nat \<times> node) list"
  next_fresh :: nat

definition addEventListener :: "node \<Rightarrow> string \<Rightarrow> nat \<Rightarrow> dom \<Rightarrow> dom" where
  "addEventListener n ty l d =
     (if (ty, l) \<in> set (listeners d n) then d
      else d\<lparr> listeners := (listeners d)(n := listeners d n @ [(ty, l)]) \<rparr>)"

definition removeEventListener :: "node \<Rightarrow> string \<Rightarrow> nat \<Rightarrow> dom \<Rightarrow> dom" where
  "removeEventListener n ty l d =
     d\<lparr> listeners := (listeners d)(n := filter (\<lambda>x. x \<noteq> (ty, l)) (listeners d n)) \<rparr>"

definition observe :: "nat \<Rightarrow> node \<Rightarrow> dom \<Rightarrow> dom" where
  "observe obs n d =
     (if (obs, n) \<in> set (observations d) then d
      else d\<lparr> observations := observations d @ [(obs, n)] \<rparr>)"

definition unobserve :: "nat \<Rightarrow> node \<Rightarrow> dom \<Rightarrow> dom" where
  "unobserve obs n d = d\<lparr> observations := filter (\<lambda>x. x \<noteq> (obs, n)) (observations d) \<rparr>"

text \<open>
  \<open>useHover\<close>: the effect stores \<open>ref.current\<close> in the constant \<open>node\<close>, returns no
  cleanup when it is null, and otherwise adds two listeners that its cleanup removes from
  the same node.
\<close>

datatype hover_cleanup = NoCleanup | RemoveListeners node nat nat

definition useHover_effect :: "node option \<Rightarrow> dom \<Rightarrow> hover_cleanup \<times> dom" where
  "useHover_effect ref_current d =
     (case ref_current of
        None \<Rightarrow> (NoCleanup, d)
      | Some n \<Rightarrow>
          (let handleMouseOver = next_fresh d; handleMouseOut = Suc (next_fresh d);
               d1 = d\<lparr> next_fresh := Suc (Suc (next_fresh d)) \<rparr>;
               d2 = addEventListener n ''mouseover'' handleMouseOver d1;
               d3 = addEventListener n ''mouseout'' handleMouseOut d2
           in (RemoveListeners n handleMouseOver handleMouseOut, d3)))"

fun useHover_cleanup :: "hover_cleanup \<Rightarrow> dom \<Rightarrow> dom" where
  "useHover_cleanup NoCleanup d = d"
| "useHover_cleanup (RemoveListeners n handleMouseOver handleMouseOut) d =
     removeEventListener n ''mouseout'' handleMouseOut
       (removeEventListener n ''mouseover'' handleMouseOver d)"

text \<open>
  \<open>useResizeObserver\<close>: the effect observes \<open>ref.current\<close> as it is at setup; the
  cleanup reads \<open>ref.current\<close> again and unobserves what it finds there:
  \<^verbatim>\<open>return () => { if (ref.current) observer.unobserve(ref.current); };\<close>
\<close>

definition useResizeObserver_effect :: "node option \<Rightarrow> dom \<Rightarrow> nat \<times> dom" where
  "useResizeObserver_effect ref_current d =
     (let observer = next_fresh d; d1 = d\<lparr> next_fresh := Suc (next_fresh d) \<rparr>
      in (observer, (case ref_current of None \<Rightarrow> d1 | Some n \<Rightarrow> observe observer n d1)))"

definition useResizeObserver_cleanup :: "nat \<Rightarrow> node option \<Rightarrow> dom \<Rightarrow> dom" where
  "useResizeObserver_cleanup observer ref_current d =
     (case ref_current of None \<Rightarrow> d | Some n \<Rightarrow> unobserve observer n d)"

definition useResizeObserver_lifecycle :: "node option \<Rightarrow> node option \<Rightarrow> dom \<Rightarrow> dom" where
  "useResizeObserver_lifecycle ref_at_setup ref_at_teardown d =
     (case useResizeObserver_effect ref_at_setup d of
        (observer, d') \<Rightarrow> useResizeObserver_cleanup observer ref_at_teardown d')"

text \<open>
  \<open>useIntersectionObserver\<close>: the effect stores \<open>ref.current\<close> in the constant
  \<open>current\<close> and the cleanup unobserves that constant.
\<close>

definition useIntersectionObserver_effect :: "node option \<Rightarrow> dom \<Rightarrow> (nat \<times> node option) \<times> dom" where
  "useIntersectionObserver_effect ref_current d =
     (let observer = next_fresh d; d1 = d\<lparr> next_fresh := Suc (next_fresh d) \<rparr>;
          current = ref_current
      in ((observer, current), (case current of None \<Rightarrow> d1 | Some n \<Rightarrow> observe observer n d1)))"

definition useIntersectionObserver_cleanup :: "nat \<times> node option \<Rightarrow> dom \<Rightarrow> dom" where
  "useIntersectionObserver_cleanup captured d =
     (case snd captured of None \<Rightarrow> d | Some n \<Rightarrow> unobserve (fst captured) n d)"

definition useIntersectionObserver_lifecycle :: "node option \<Rightarrow> node option \<Rightarrow> dom \<Rightarrow> dom" where
  "useIntersectionObserver_lifecycle ref_at_setup ref_at_teardown d =
     (case useIntersectionObserver_effect ref_at_setup d of
        (captured, d') \<Rightarrow> useIntersectionObserver_cleanup captured d')"

definition empty_dom :: dom where
  "empty_dom = \<lparr> listeners = (\<lambda>n. []), observations = [], next_fresh = 0 \<rparr>"

definition fresh_observer :: "dom \<Rightarrow> bool" where
  "fresh_observer d = list_all (\<lambda>x. fst x < next_fresh d) (observations d)"

definition fresh_listeners :: "dom \<Rightarrow> node \<Rightarrow> bool" where
  "fresh_listeners d n = list_all (\<lambda>x. snd x < next_fresh d) (listeners d n)"

section \<open>useDragDrop\<close>

text \<open>
  One state cell of type \<open>DragDropState\<close>. \<open>handleDragOver\<close> and \<open>handleDragLeave\<close>
  compare with \<open>state.overDropId\<close> as captured by the render that created them
  (\<open>useCallback\<close> with the dependency \<open>state.overDropId\<close>), the argument
  \<open>seen_overDropId\<close>. The transfer payload of the drag (\<open>text/plain\<close>) is a string,
  empty until \<open>handleDragStart\<close> sets it. The calls of the consumer's \<open>onDrop\<close> are
  logged. In \<open>useDragDrop_step\<close> each event is handled by the callbacks of a render
  that has seen the state left by the event before.
\<close>

record DragDropState =
  isDragging :: bool
  isOver :: bool
  draggedItemId :: "string option"
  overDropId :: "string option"

record drag_hook =
  drag_state :: DragDropState
  dataTransfer :: string
  onDrop_calls :: "(string \<times> string) list"

definition useDragDrop_initial :: drag_hook where
  "useDragDrop_initial =
     \<lparr> drag_state = \<lparr> isDragging = False, isOver = False, draggedItemId = None, overDropId = None \<rparr>,
       dataTransfer = [], onDrop_calls = [] \<rparr>"

definition handleDragStart :: "string \<Rightarrow> drag_hook \<Rightarrow> drag_hook" where
  "handleDragStart dragId h =
     h\<lparr> dataTransfer := dragId,
        drag_state := \<lparr> isDragging = True, isOver = False, draggedItemId = Some dragId,
                        overDropId = None \<rparr> \<rparr>"

definition handleDragOver :: "string option \<Rightarrow> string \<Rightarrow> drag_hook \<Rightarrow> drag_hook" where
  "handleDragOver seen_overDropId dropId h =
     (if seen_overDropId \<noteq> Some dropId
      then h\<lparr> drag_state := (drag_state h)\<lparr> isOver := True, overDropId := Some dropId \<rparr> \<rparr>
      else h)"

definition handleDragEnter :: "string \<Rightarrow> drag_hook \<Rightarrow> drag_hook" where
  "handleDragEnter dropId h =
     h\<lparr> drag_state := (drag_state h)\<lparr> isOver := True, overDropId := Some dropId \<rparr> \<rparr>"

definition handleDragLeave :: "string option \<Rightarrow> string \<Rightarrow> drag_hook \<Rightarrow> drag_hook" where
  "handleDragLeave seen_overDropId dropId h =
     (if seen_overDropId = Some dropId
      then h\<lparr> drag_state := (drag_state h)\<lparr> isOver := False, overDropId := None \<rparr> \<rparr>
      else h)"

definition handleDrop :: "string \<Rightarrow> drag_hook \<Rightarrow> drag_hook" where
  "handleDrop dropId h =
     (let dragId = dataTransfer h in
      h\<lparr> drag_state := \<lparr> isDragging = False, isOver = False, draggedItemId = Some dragId,
                         overDropId = Some dropId \<rparr>,
         onDrop_calls := onDrop_calls h @ [(dragId, dropId)] \<rparr>)"

datatype drag_event =
  DragStart string | DragOver string | DragEnter string | DragLeave string | Drop string

fun useDragDrop_step :: "drag_event \<Rightarrow> drag_hook \<Rightarrow> drag_hook" where
  "useDragDrop_step (DragStart dragId) h = handleDragStart dragId h"
| "useDragDrop_step (DragOver dropId) h = handleDragOver (overDropId (drag_state h)) dropId h"
| "useDragDrop_step (DragEnter dropId) h = handleDragEnter dropId h"
| "useDragDrop_step (DragLeave dropId) h = handleDragLeave (overDropId (drag_state h)) dropId h"
| "useDragDrop_step (Drop dropId) h = handleDrop dropId h"

definition useDragDrop_run :: "drag_hook \<Rightarrow> drag_event list \<Rightarrow> drag_hook" where
  "useDragDrop_run h evs = fold useDragDrop_step evs h"

section \<open>Properties\<close>

subsection \<open>useFetchRetry\<close>

lemma fetchData_loop_failures:
  "\<forall>i<k. isl (retry_attempt (fetch (calls + i))) \<Longrightarrow> attempts + int k < retries \<Longrightarrow>
   fetchData_loop retries fetch attempts calls st
     = fetchData_loop retries fetch (attempts + int k) (calls + k) st"
proof (induction k arbitrary: attempts calls)
  case 0
  then show ?case by simp
next
  case (Suc k)
  from Suc.prems(1) have "isl (retry_attempt (fetch (calls + 0)))" by blast
  then obtain m where m: "retry_attempt (fetch calls) = Inl m"
    by (cases "retry_attempt (fetch calls)") auto
  have step: "fetchData_loop retries fetch attempts calls st
      = fetchData_loop retries fetch (attempts + 1) (Suc calls) st"
    using Suc.prems(2) m by (subst fetchData_loop.simps) simp
  have rest: "\<forall>i<k. isl (retry_attempt (fetch (Suc calls + i)))"
  proof (intro allI impI)
    fix i assume "i < k"
    then have "Suc i < Suc k" by simp
    with Suc.prems(1) have "isl (retry_attempt (fetch (calls + Suc i)))" by blast
    then show "isl (retry_attempt (fetch (Suc calls + i)))" by simp
  qed
  have "fetchData_loop retries fetch (attempts + 1) (Suc calls) st
      = fetchData_loop retries fetch (attempts + 1 + int k) (Suc calls + k) st"
    using Suc.IH [OF rest, of "attempts + 1"] Suc.prems(2) by simp
  with step show ?case by (simp add: add.assoc)
qed

lemma fetchData_success:
  assumes "\<forall>i<k. isl (retry_attempt (fetch i))" and "retry_attempt (fetch k) = Inr d"
    and "int k < retries"
  shows "fetchData retries fetch st = (\<lparr> data = Some d, loading = False, error = None \<rparr>, Suc k)"
proof -
  have "fetchData_loop retries fetch 0 0 st = fetchData_loop retries fetch (0 + int k) (0 + k) st"
    using assms(1,3) by (intro fetchData_loop_failures) simp_all
  also have "\<dots> = (\<lparr> data = Some d, loading = False, error = None \<rparr>, Suc k)"
    using assms(2,3) by (subst fetchData_loop.simps) simp
  finally show ?thesis by (simp add: fetchData_def)
qed

lemma fetchData_exhausted:
  assumes "\<forall>i. isl (retry_attempt (fetch i))" and "0 < retries"
  shows "fetchData retries fetch st =
     (\<lparr> data = None, loading = False,
        error = Some (projl (retry_attempt (fetch (nat retries - 1)))) \<rparr>, nat retries)"
proof -
  define n where "n = nat retries - 1"
  have n: "int n = retries - 1" "Suc n = nat retries" using assms(2) by (simp_all add: n_def)
  obtain m where m: "retry_attempt (fetch n) = Inl m"
    using assms(1) by (cases "retry_attempt (fetch n)") (auto dest: spec [of _ n])
  have "fetchData_loop retries fetch 0 0 st = fetchData_loop retries fetch (0 + int n) (0 + n) st"
    using assms(1) n by (intro fetchData_loop_failures) simp_all
  also have "\<dots> = fetchData_loop retries fetch retries (Suc n)
       \<lparr> data = None, loading = False, error = Some m \<rparr>"
    using m n by (subst fetchData_loop.simps) simp
  also have "\<dots> = (\<lparr> data = None, loading = False, error = Some m \<rparr>, Suc n)"
    by (subst fetchData_loop.simps) simp
  finally show ?thesis using m n by (simp add: fetchData_def n_def)
qed

lemma fetchData_no_attempt:
  "retries \<le> 0 \<Longrightarrow> fetchData retries fetch st = (st, 0)"
  by (simp add: fetchData_def fetchData_loop.simps)

lemma useFetchRetry_renders_same_args:
  "useFetchRetry_renders (Some a) (map (Pair a) gs) st = (st, [])"
  by (induction gs) simp_all

lemma sample_failing_fails:
  "retry_attempt (sample_failing i) = Inl (''HTTP error! status: '' @ string_of_nat (500 + i))"
  by (simp add: sample_failing_def retry_attempt_def)

lemma sample_recovering_attempts:
  "i < 2 \<Longrightarrow> retry_attempt (sample_recovering i) = Inl ''Failed to fetch''"
  "retry_attempt (sample_recovering 2) = Inr 5"
  by (simp_all add: sample_recovering_def retry_attempt_def)

lemma string_of_nat_502: "string_of_nat 502 = ''502''"
  by code_simp

lemma sample_failing_exhausted:
  "fetchData 3 sample_failing st
     = (\<lparr> data = None, loading = False, error = Some ''HTTP error! status: 502'' \<rparr>, 3)"
  using fetchData_exhausted [of sample_failing 3 st]
  by (simp add: sample_failing_fails string_of_nat_502)

text \<open>
  Claim C2 as stated: when every attempt fails, exactly \<open>retries\<close> attempts are made,
  the cell carries the last error with loading cleared, and no further attempt follows.
  It fails in two ways. With \<open>retries = 0\<close> no attempt is made and nothing is committed:
  the cell keeps \<open>loading = true\<close> and no error. With \<open>retries = 3\<close> and a component
  that passes a new options object at the render that follows the commit, the effect runs
  again for the same url: six attempts, not three.
\<close>

theorem useFetchRetry_more_or_no_attempts:
  "useFetchRetry_renders None
      [(\<lparr> arg_url = ''/a'', arg_options = 0, arg_retries = 0 \<rparr>, sample_failing)]
      useFetchRetry_initial
     = (\<lparr> data = None, loading = True, error = None \<rparr>, [0])
   \<and> useFetchRetry_renders None
      [(\<lparr> arg_url = ''/a'', arg_options = 0, arg_retries = 3 \<rparr>, sample_failing),
       (\<lparr> arg_url = ''/a'', arg_options = 1, arg_retries = 3 \<rparr>, sample_failing)]
      useFetchRetry_initial
     = (\<lparr> data = None, loading = False, error = Some ''HTTP error! status: 502'' \<rparr>, [3, 3])"
  by (simp add: fetchData_no_attempt sample_failing_exhausted useFetchRetry_initial_def)

text \<open>
  Claim C2, amended. Let the first render pass the arguments \<open>a\<close> with a bound
  \<open>retries\<close> of at least 1, and let every later render pass the same url, the same
  options object and the same bound. When the first \<open>k < retries\<close> calls fail and call
  \<open>k\<close> succeeds with \<open>d\<close>, the cell is \<open>{data: d, error: null, loading: false}\<close>
  after exactly \<open>k + 1\<close> calls. When every call fails, exactly \<open>retries\<close> calls are
  made and the cell carries the message of the last call as error, no data and loading
  cleared. In both cases the later renders start no run, so no call follows. A render that
  passes another url, another options object or another bound starts a new run that counts
  from zero: after a run that used up all attempts, it makes \<open>k + 1\<close> calls when the
  first \<open>k\<close> of them fail. With a bound of zero or less a run makes no call and commits
  nothing.
\<close>

theorem useFetchRetry_bounded_retry:
  "((\<forall>i<k. isl (retry_attempt (fetch i))) \<and> retry_attempt (fetch k) = Inr d
        \<and> int k < arg_retries a
      \<longrightarrow> fetchData (arg_retries a) fetch st
            = (\<lparr> data = Some d, loading = False, error = None \<rparr>, Suc k)
        \<and> useFetchRetry_renders None ((a, fetch) # map (Pair a) gs) useFetchRetry_initial
            = (\<lparr> data = Some d, loading = False, error = None \<rparr>, [Suc k]))
   \<and> ((\<forall>i. isl (retry_attempt (fetch i))) \<and> 0 < arg_retries a
      \<longrightarrow> fetchData (arg_retries a) fetch st
            = (\<lparr> data = None, loading = False,
                 error = Some (projl (retry_attempt (fetch (nat (arg_retries a) - 1)))) \<rparr>,
               nat (arg_retries a))
        \<and> useFetchRetry_renders None ((a, fetch) # map (Pair a) gs) useFetchRetry_initial
            = (\<lparr> data = None, loading = False,
                 error = Some (projl (retry_attempt (fetch (nat (arg_retries a) - 1)))) \<rparr>,
               [nat (arg_retries a)]))
   \<and> ((\<forall>i. isl (retry_attempt (fetch1 i))) \<and> 0 < arg_retries a
        \<and> (\<forall>i<k. isl (retry_attempt (fetch2 i))) \<and> retry_attempt (fetch2 k) = Inr d
        \<and> int k < arg_retries b \<and> a \<noteq> b
      \<longrightarrow> useFetchRetry_renders None [(a, fetch1), (b, fetch2)] useFetchRetry_initial
            = (\<lparr> data = Some d, loading = False, error = None \<rparr>, [nat (arg_retries a), Suc k]))
   \<and> (arg_retries a \<le> 0
      \<longrightarrow> useFetchRetry_renders None ((a, fetch) # map (Pair a) gs) st = (st, [0]))"
proof (intro conjI impI)
  assume h: "(\<forall>i<k. isl (retry_attempt (fetch i))) \<and> retry_attempt (fetch k) = Inr d
      \<and> int k < arg_retries a"
  then have run: "fetchData (arg_retries a) fetch st'
      = (\<lparr> data = Some d, loading = False, error = None \<rparr>, Suc k)" for st' :: "'a FetchState"
    by (simp add: fetchData_success)
  show "fetchData (arg_retries a) fetch st
      = (\<lparr> data = Some d, loading = False, error = None \<rparr>, Suc k)"
    by (rule run)
  show "useFetchRetry_renders None ((a, fetch) # map (Pair a) gs) useFetchRetry_initial
      = (\<lparr> data = Some d, loading = False, error = None \<rparr>, [Suc k])"
    by (simp add: run useFetchRetry_renders_same_args)
next
  assume h: "(\<forall>i. isl (retry_attempt (fetch i))) \<and> 0 < arg_retries a"
  then have run: "fetchData (arg_retries a) fetch st'
      = (\<lparr> data = None, loading = False,
           error = Some (projl (retry_attempt (fetch (nat (arg_retries a) - 1)))) \<rparr>,
         nat (arg_retries a))" for st' :: "'a FetchState"
    by (simp add: fetchData_exhausted)
  show "fetchData (arg_retries a) fetch st
      = (\<lparr> data = None, loading = False,
           error = Some (projl (retry_attempt (fetch (nat (arg_retries a) - 1)))) \<rparr>,
         nat (arg_retries a))"
    by (rule run)
  show "useFetchRetry_renders None ((a, fetch) # map (Pair a) gs) useFetchRetry_initial
      = (\<lparr> data = None, loading = False,
           error = Some (projl (retry_attempt (fetch (nat (arg_retries a) - 1)))) \<rparr>,
         [nat (arg_retries a)])"
    by (simp add: run useFetchRetry_renders_same_args)
next
  assume h: "(\<forall>i. isl (retry_attempt (fetch1 i))) \<and> 0 < arg_retries a
      \<and> (\<forall>i<k. isl (retry_attempt (fetch2 i))) \<and> retry_attempt (fetch2 k) = Inr d
      \<and> int k < arg_retries b \<and> a \<noteq> b"
  have first: "fetchData (arg_retries a) fetch1 useFetchRetry_initial
      = (\<lparr> data = None, loading = False,
           error = Some (projl (retry_attempt (fetch1 (nat (arg_retries a) - 1)))) \<rparr>,
         nat (arg_retries a))"
    using h by (simp add: fetchData_exhausted)
  have second: "fetchData (arg_retries b) fetch2 st'
      = (\<lparr> data = Some d, loading = False, error = None \<rparr>, Suc k)"
    for st' :: "'a FetchState"
    using h by (simp add: fetchData_success)
  show "useFetchRetry_renders None [(a, fetch1), (b, fetch2)] useFetchRetry_initial
      = (\<lparr> data = Some d, loading = False, error = None \<rparr>, [nat (arg_retries a), Suc k])"
    using h by (simp add: first second)
next
  assume "arg_retries a \<le> 0"
  then have "fetchData (arg_retries a) fetch st = (st, 0)"
    by (rule fetchData_no_attempt)
  then show "useFetchRetry_renders None ((a, fetch) # map (Pair a) gs) st = (st, [0])"
    by (simp add: useFetchRetry_renders_same_args)
qed

theorem useFetchRetry_bounded_retry_witness:
  "useFetchRetry_renders None
      [(\<lparr> arg_url = ''/a'', arg_options = 0, arg_retries = 3 \<rparr>, sample_recovering),
       (\<lparr> arg_url = ''/a'', arg_options = 0, arg_retries = 3 \<rparr>, sample_failing),
       (\<lparr> arg_url = ''/a'', arg_options = 0, arg_retries = 3 \<rparr>, sample_failing)]
      useFetchRetry_initial
     = (\<lparr> data = Some 5, loading = False, error = None \<rparr>, [3])
   \<and> useFetchRetry_renders None
      [(\<lparr> arg_url = ''/a'', arg_options = 0, arg_retries = 3 \<rparr>, sample_failing),
       (\<lparr> arg_url = ''/a'', arg_options = 0, arg_retries = 3 \<rparr>, sample_failing)]
      useFetchRetry_initial
     = (\<lparr> data = None, loading = False, error = Some ''HTTP error! status: 502'' \<rparr>, [3])
   \<and> useFetchRetry_renders None
      [(\<lparr> arg_url = ''/a'', arg_options = 0, arg_retries = 3 \<rparr>, sample_failing),
       (\<lparr> arg_url = ''/b'', arg_options = 0, arg_retries = 3 \<rparr>, sample_recovering)]
      useFetchRetry_initial
     = (\<lparr> data = Some 5, loading = False, error = None \<rparr>, [3, 3])
   \<and> useFetchRetry_renders None
      [(\<lparr> arg_url = ''/a'', arg_options = 0, arg_retries = 0 \<rparr>, sample_failing),
       (\<lparr> arg_url = ''/a'', arg_options = 0, arg_retries = 0 \<rparr>, sample_failing)]
      useFetchRetry_initial
     = (useFetchRetry_initial, [0])"
  using useFetchRetry_bounded_retry
      [of 2 sample_recovering 5 "\<lparr> arg_url = ''/a'', arg_options = 0, arg_retries = 3 \<rparr>"
          useFetchRetry_initial "[sample_failing, sample_failing]"]
    useFetchRetry_bounded_retry
      [of 0 sample_failing 0 "\<lparr> arg_url = ''/a'', arg_options = 0, arg_retries = 3 \<rparr>"
          useFetchRetry_initial "[sample_failing]"]
    useFetchRetry_bounded_retry
      [of 2 _ 5 "\<lparr> arg_url = ''/a'', arg_options = 0, arg_retries = 3 \<rparr>" _ _
          sample_failing sample_recovering
          "\<lparr> arg_url = ''/b'', arg_options = 0, arg_retries = 3 \<rparr>"]
    useFetchRetry_bounded_retry
      [of 0 sample_failing 0 "\<lparr> arg_url = ''/a'', arg_options = 0, arg_retries = 0 \<rparr>"
          useFetchRetry_initial "[sample_failing]"]
  by (simp add: sample_failing_fails sample_recovering_attempts string_of_nat_502)

subsection \<open>useDebounce\<close>

lemma last_update_time_mono:
  "burst delay (tu, vu) now evs \<Longrightarrow> tu \<le> now \<Longrightarrow> tu \<le> fst (last_update (tu, vu) evs)"
proof (induction evs arbitrary: tu vu now)
  case Nil
  then show ?case by simp
next
  case (Cons e es)
  show ?case
  proof (cases e)
    case (Render t v d)
    with Cons.prems have "burst delay (t, v) t es" "tu \<le> t" by simp_all
    with Cons.IH [of t v t] have "t \<le> fst (last_update (t, v) es)" by simp
    with \<open>tu \<le> t\<close> Render show ?thesis by simp
  next
    case (Tick t)
    with Cons.prems have "burst delay (tu, vu) t es" "tu \<le> t" by simp_all
    with Cons.IH [of tu vu t] Tick show ?thesis by simp
  qed
qed

lemma burst_after_delay:
  "burst delay (tu, vu) now evs \<Longrightarrow> tu + max delay 0 \<le> now \<Longrightarrow>
     last_update (tu, vu) evs = (tu, vu) \<and> (\<forall>t \<in> set (tick_times evs). now \<le> t)
     \<and> evs = map Tick (tick_times evs)"
proof (induction evs arbitrary: now)
  case Nil
  then show ?case by simp
next
  case (Cons e es)
  show ?case
  proof (cases e)
    case (Render t v d)
    with Cons.prems have "now \<le> t" "t - tu < delay" "tu + max delay 0 \<le> now" by simp_all
    then have False by linarith
    then show ?thesis ..
  next
    case (Tick t)
    with Cons.prems have b: "burst delay (tu, vu) t es" and le: "now \<le> t" by simp_all
    with Cons.prems(2) have "tu + max delay 0 \<le> t" by simp
    from Cons.IH [OF b this] le Tick show ?thesis by fastforce
  qed
qed

lemma useDebounce_tick_idle:
  "timers (debounce_host h) = [] \<Longrightarrow> useDebounce_tick now h = h"
  by (simp add: useDebounce_tick_def due_timers_def drop_due_def)

lemma useDebounce_run_ticks_idle:
  "timers (debounce_host h) = [] \<Longrightarrow> useDebounce_run h (map Tick ts) = h"
  by (induction ts) (simp_all add: useDebounce_run_def useDebounce_tick_idle)

lemma useDebounce_run_Cons:
  "useDebounce_run h (e # es) = useDebounce_run (useDebounce_step e h) es"
  by (simp add: useDebounce_run_def)

lemma useDebounce_burst_invariant:
  assumes "timers (debounce_host h)
             = [\<lparr> timer_id = debounce_handler h, due = tu + max delay 0, callback_value = vu \<rparr>]"
    and "debounce_deps h = (vu, delay)"
    and "burst delay (tu, vu) now evs" and "tu \<le> now"
  shows "debounce_commits (useDebounce_run h evs)
           = debounce_commits h @
             (case firing_ticks delay (tu, vu) evs of
                [] \<Rightarrow> [] | t # _ \<Rightarrow> [(t, snd (last_update (tu, vu) evs))])
       \<and> pending_commits (debounce_host (useDebounce_run h evs))
           = (case firing_ticks delay (tu, vu) evs of
                [] \<Rightarrow> [(fst (last_update (tu, vu) evs) + max delay 0, snd (last_update (tu, vu) evs))]
              | t # _ \<Rightarrow> [])
       \<and> debouncedValue (useDebounce_run h evs)
           = (case firing_ticks delay (tu, vu) evs of
                [] \<Rightarrow> debouncedValue h | t # _ \<Rightarrow> snd (last_update (tu, vu) evs))"
  using assms
proof (induction evs arbitrary: h tu vu now)
  case Nil
  then show ?case
    by (simp add: useDebounce_run_def firing_ticks_def pending_commits_def)
next
  case (Cons e es)
  show ?case
  proof (cases e)
    case (Render t v d)
    with Cons.prems have b: "burst delay (t, v) t es" and le: "now \<le> t" and d: "d = delay"
      and chg: "v \<noteq> vu" by simp_all
    let ?h = "useDebounce_step e h"
    have t1: "timers (debounce_host ?h)
        = [\<lparr> timer_id = debounce_handler ?h, due = t + max delay 0, callback_value = v \<rparr>]"
      using Cons.prems(1,2) chg
      by (simp add: Render d useDebounce_render_def useDebounce_effect_def useDebounce_cleanup_def
          setTimeout_def clearTimeout_def)
    have t2: "debounce_deps ?h = (v, delay)"
      using Cons.prems(2) chg
      by (simp add: Render d useDebounce_render_def useDebounce_effect_def setTimeout_def)
    have keep: "debounce_commits ?h = debounce_commits h" "debouncedValue ?h = debouncedValue h"
      using Cons.prems(2) chg
      by (simp_all add: Render d useDebounce_render_def useDebounce_effect_def setTimeout_def
          useDebounce_cleanup_def)
    have ft: "firing_ticks delay (tu, vu) (e # es) = firing_ticks delay (t, v) es"
      by (simp add: Render firing_ticks_def)
    have lu: "last_update (tu, vu) (e # es) = last_update (t, v) es"
      by (simp add: Render)
    from Cons.IH [OF t1 t2 b order_refl] show ?thesis
      by (simp add: useDebounce_run_Cons ft keep lu split: list.split)
  next
    case (Tick t)
    with Cons.prems have b: "burst delay (tu, vu) t es" and le: "now \<le> t" by simp_all
    show ?thesis
    proof (cases "tu + max delay 0 \<le> t")
      case True
      let ?h = "useDebounce_step e h"
      from burst_after_delay [OF b True]
      have lu: "last_update (tu, vu) es = (tu, vu)" and es: "es = map Tick (tick_times es)"
        by simp_all
      have fired: "timers (debounce_host ?h) = []"
        "debounce_commits ?h = debounce_commits h @ [(t, vu)]" "debouncedValue ?h = vu"
        using Cons.prems(1) True
        by (simp_all add: Tick useDebounce_tick_def due_timers_def drop_due_def useDebounce_fire_def)
      have run: "useDebounce_run h (e # es) = ?h"
        using useDebounce_run_ticks_idle [OF fired(1), of "tick_times es"] es
        by (simp add: useDebounce_run_Cons)
      have ft: "firing_ticks delay (tu, vu) (e # es) = t # filter (\<lambda>x. tu + max delay 0 \<le> x) (tick_times es)"
        using True by (simp add: firing_ticks_def Tick lu)
      have lu': "last_update (tu, vu) (e # es) = (tu, vu)"
        by (simp add: Tick lu)
      show ?thesis
        by (simp add: run ft fired pending_commits_def lu')
    next
      case False
      have same: "useDebounce_step e h = h"
        using Cons.prems(1) False
        by (simp add: Tick useDebounce_tick_def due_timers_def drop_due_def)
      have "tu \<le> t" using Cons.prems(4) le by simp
      from last_update_time_mono [OF b this] False
      have ft: "firing_ticks delay (tu, vu) (e # es) = firing_ticks delay (tu, vu) es"
        by (simp add: firing_ticks_def Tick)
      have lu: "last_update (tu, vu) (e # es) = last_update (tu, vu) es"
        by (simp add: Tick)
      from Cons.IH [OF Cons.prems(1,2) b \<open>tu \<le> t\<close>] show ?thesis
        by (simp add: useDebounce_run_Cons same ft lu split: list.split)
    qed
  qed
qed

text \<open>
  Claim C3. Take a mount at \<open>t0\<close> with value \<open>v0\<close> followed by a burst: updates that
  each change the value and arrive less than \<open>delay\<close> ms after the previous one, with
  ticks of the host anywhere in between and after. Then the log of commits is empty as long
  as the host has not run timers at or after the last update plus the delay, and from the
  first such tick on it holds exactly one commit, of the last update's value, made at that
  tick and so at least \<open>delay\<close> ms after the last update; the hook then returns that
  value. Until then exactly one timer is pending, that of the last update: the timers of
  all earlier updates were cancelled.
\<close>

theorem useDebounce_burst_single_commit:
  assumes "burst delay (t0, v0) t0 evs"
  shows "debounce_commits (useDebounce_run (useDebounce_mount t0 v0 delay) evs)
           = (case firing_ticks delay (t0, v0) evs of
                [] \<Rightarrow> [] | t # _ \<Rightarrow> [(t, snd (last_update (t0, v0) evs))])
       \<and> pending_commits (debounce_host (useDebounce_run (useDebounce_mount t0 v0 delay) evs))
           = (case firing_ticks delay (t0, v0) evs of
                [] \<Rightarrow> [(fst (last_update (t0, v0) evs) + max delay 0, snd (last_update (t0, v0) evs))]
              | t # _ \<Rightarrow> [])
       \<and> debouncedValue (useDebounce_run (useDebounce_mount t0 v0 delay) evs)
           = (case firing_ticks delay (t0, v0) evs of
                [] \<Rightarrow> v0 | t # _ \<Rightarrow> snd (last_update (t0, v0) evs))
       \<and> length (debounce_commits (useDebounce_run (useDebounce_mount t0 v0 delay) evs))
           = (if firing_ticks delay (t0, v0) evs = [] then 0 else 1)
       \<and> (\<forall>c \<in> set (debounce_commits (useDebounce_run (useDebounce_mount t0 v0 delay) evs)).
             snd c = snd (last_update (t0, v0) evs)
             \<and> fst (last_update (t0, v0) evs) + delay \<le> fst c)"
proof -
  let ?h = "useDebounce_mount t0 v0 delay"
  have m1: "timers (debounce_host ?h)
      = [\<lparr> timer_id = debounce_handler ?h, due = t0 + max delay 0, callback_value = v0 \<rparr>]"
    by (simp add: useDebounce_mount_def useDebounce_effect_def setTimeout_def no_timers_def)
  have m2: "debounce_deps ?h = (v0, delay)"
    by (simp add: useDebounce_mount_def useDebounce_effect_def setTimeout_def)
  have m3: "debounce_commits ?h = []" "debouncedValue ?h = v0"
    by (simp_all add: useDebounce_mount_def useDebounce_effect_def setTimeout_def)
  note inv = useDebounce_burst_invariant [OF m1 m2 assms order_refl, unfolded m3 append_Nil]
  have fire: "fst (last_update (t0, v0) evs) + delay \<le> t"
    if "t \<in> set (firing_ticks delay (t0, v0) evs)" for t
    using that by (auto simp: firing_ticks_def)
  show ?thesis
  proof (cases "firing_ticks delay (t0, v0) evs")
    case Nil
    with inv show ?thesis by simp
  next
    case (Cons t ts)
    then have "t \<in> set (firing_ticks delay (t0, v0) evs)" by simp
    from fire [OF this] inv Cons show ?thesis by simp
  qed
qed

theorem useDebounce_burst_single_commit_witness:
  "debounce_commits (useDebounce_run (useDebounce_mount 0 (0::nat) 100)
      [Render 60 1 100, Tick 100, Render 120 2 100, Tick 219, Tick 220, Tick 500]) = [(220, 2)]
   \<and> debouncedValue (useDebounce_run (useDebounce_mount 0 (0::nat) 100)
      [Render 60 1 100, Tick 100, Render 120 2 100, Tick 219, Tick 220, Tick 500]) = 2
   \<and> pending_commits (debounce_host (useDebounce_run (useDebounce_mount 0 (0::nat) 100)
      [Render 60 1 100, Tick 100, Render 120 2 100, Tick 219])) = [(220, 2)]"
  using useDebounce_burst_single_commit [of 100 0 "0::nat"
      "[Render 60 1 100, Tick 100, Render 120 2 100, Tick 219, Tick 220, Tick 500]"]
    useDebounce_burst_single_commit [of 100 0 "0::nat"
      "[Render 60 1 100, Tick 100, Render 120 2 100, Tick 219]"]
  by (simp add: firing_ticks_def)

text \<open>
  The same holds for a burst that starts later in the life of the hook. In every state
  reached from a mount the only timer is the one of the latest effect run, so the first
  update of a burst cancels whatever is pending; from there on the burst commits once, as
  above, after the commits that were logged before it.
\<close>

lemma sole_timer_mount: "sole_timer (useDebounce_mount now v delay)"
  by (simp add: sole_timer_def useDebounce_mount_def useDebounce_effect_def setTimeout_def
      no_timers_def)

lemma useDebounce_cleanup_clears:
  "sole_timer h \<Longrightarrow> timers (debounce_host (useDebounce_cleanup h)) = []"
  by (simp add: sole_timer_def useDebounce_cleanup_def clearTimeout_def list_all_iff
      filter_empty_conv)

lemma fold_fire_keeps_host:
  "debounce_host (fold (useDebounce_fire now) cs h) = debounce_host h
   \<and> debounce_handler (fold (useDebounce_fire now) cs h) = debounce_handler h"
  by (induction cs arbitrary: h) (simp_all add: useDebounce_fire_def)

lemma sole_timer_step: "sole_timer h \<Longrightarrow> sole_timer (useDebounce_step e h)"
proof (cases e)
  case (Render now v d)
  assume "sole_timer h"
  from useDebounce_cleanup_clears [OF this] \<open>sole_timer h\<close> show ?thesis
    by (simp add: Render useDebounce_render_def sole_timer_def useDebounce_effect_def
        setTimeout_def)
next
  case (Tick now)
  assume "sole_timer h"
  then show ?thesis
    by (simp add: Tick useDebounce_tick_def sole_timer_def fold_fire_keeps_host drop_due_def
        list_all_iff)
qed

lemma sole_timer_run: "sole_timer h \<Longrightarrow> sole_timer (useDebounce_run h evs)"
  by (induction evs arbitrary: h) (simp_all add: useDebounce_run_def sole_timer_step)

lemma useDebounce_deactivated_silent:
  "debounce_commits (useDebounce_run
      (useDebounce_cleanup (useDebounce_run (useDebounce_mount t0 v0 delay) evs)) (map Tick ts))
     = debounce_commits (useDebounce_run (useDebounce_mount t0 v0 delay) evs)"
proof -
  let ?h = "useDebounce_run (useDebounce_mount t0 v0 delay) evs"
  have "sole_timer ?h" by (rule sole_timer_run [OF sole_timer_mount])
  then have "timers (debounce_host (useDebounce_cleanup ?h)) = []"
    by (rule useDebounce_cleanup_clears)
  then have "useDebounce_run (useDebounce_cleanup ?h) (map Tick ts) = useDebounce_cleanup ?h"
    by (rule useDebounce_run_ticks_idle)
  then show ?thesis by (simp add: useDebounce_cleanup_def)
qed

lemma useDebounce_burst_from_reachable:
  assumes "h = useDebounce_run (useDebounce_mount t0 v0 d0) pre"
    and "debounce_deps h \<noteq> (v, delay)"
    and "burst delay (t, v) t evs"
  shows "debounce_commits (useDebounce_run (useDebounce_render t v delay h) evs)
           = debounce_commits h @
             (case firing_ticks delay (t, v) evs of
                [] \<Rightarrow> [] | x # _ \<Rightarrow> [(x, snd (last_update (t, v) evs))])
       \<and> pending_commits (debounce_host (useDebounce_run (useDebounce_render t v delay h) evs))
           = (case firing_ticks delay (t, v) evs of
                [] \<Rightarrow> [(fst (last_update (t, v) evs) + max delay 0, snd (last_update (t, v) evs))]
              | x # _ \<Rightarrow> [])
       \<and> debouncedValue (useDebounce_run (useDebounce_render t v delay h) evs)
           = (case firing_ticks delay (t, v) evs of
                [] \<Rightarrow> debouncedValue h | x # _ \<Rightarrow> snd (last_update (t, v) evs))"
proof -
  let ?h = "useDebounce_render t v delay h"
  have "sole_timer h"
    unfolding assms(1) by (rule sole_timer_run [OF sole_timer_mount])
  then have cleared: "timers (debounce_host (useDebounce_cleanup h)) = []"
    by (rule useDebounce_cleanup_clears)
  have t1: "timers (debounce_host ?h)
      = [\<lparr> timer_id = debounce_handler ?h, due = t + max delay 0, callback_value = v \<rparr>]"
    using assms(2) cleared
    by (simp add: useDebounce_render_def useDebounce_effect_def setTimeout_def)
  have t2: "debounce_deps ?h = (v, delay)"
    using assms(2) by (simp add: useDebounce_render_def useDebounce_effect_def setTimeout_def)
  have keep: "debounce_commits ?h = debounce_commits h" "debouncedValue ?h = debouncedValue h"
    using assms(2)
    by (simp_all add: useDebounce_render_def useDebounce_effect_def setTimeout_def
        useDebounce_cleanup_def)
  from useDebounce_burst_invariant [OF t1 t2 assms(3) order_refl] show ?thesis
    by (simp add: keep split: list.split)
qed

subsection \<open>useThrottle\<close>

lemma same_policy_mount: "same_policy_state (useThrottle_mount now v d) (useDebounce_mount now v d)"
  by (simp add: same_policy_state_def useThrottle_mount_def useDebounce_mount_def
      useThrottle_effect_def useDebounce_effect_def setTimeout_def)

lemma same_policy_fire:
  "same_policy_state x y \<Longrightarrow> same_policy_state (useThrottle_fire now c x) (useDebounce_fire now c y)"
  by (simp add: same_policy_state_def useThrottle_fire_def useDebounce_fire_def)

lemma same_policy_fold_fire:
  "same_policy_state x y \<Longrightarrow>
     same_policy_state (fold (useThrottle_fire now) cs x) (fold (useDebounce_fire now) cs y)"
  by (induction cs arbitrary: x y) (simp_all add: same_policy_fire)

lemma same_policy_step:
  assumes "same_policy_state x y"
  shows "same_policy_state (useThrottle_step e x) (useDebounce_step e y)"
proof (cases e)
  case (Render now v d)
  with assms show ?thesis
    by (simp add: same_policy_state_def useThrottle_render_def useDebounce_render_def
        useThrottle_effect_def useDebounce_effect_def useThrottle_cleanup_def
        useDebounce_cleanup_def setTimeout_def)
next
  case (Tick now)
  have "same_policy_state (x\<lparr> throttle_host := drop_due now (throttle_host x) \<rparr>)
          (y\<lparr> debounce_host := drop_due now (debounce_host y) \<rparr>)"
    using assms by (simp add: same_policy_state_def)
  from same_policy_fold_fire [OF this] assms Tick show ?thesis
    by (simp add: useThrottle_tick_def useDebounce_tick_def same_policy_state_def)
qed

lemma same_policy_run:
  "same_policy_state x y \<Longrightarrow> same_policy_state (useThrottle_run x evs) (useDebounce_run y evs)"
  by (induction evs arbitrary: x y)
     (simp_all add: useThrottle_run_def useDebounce_run_def same_policy_step)

lemma steady_updates_commits:
  "debounce_commits (useDebounce_run (useDebounce_mount 0 0 100) steady_updates) = []"
  "debounce_commits (useDebounce_run (useDebounce_mount 0 0 100) (steady_updates @ [Tick 340])) = [(340, 4)]"
  by (simp_all add: steady_updates_def useDebounce_run_def useDebounce_mount_def
      useDebounce_render_def useDebounce_effect_def useDebounce_cleanup_def useDebounce_tick_def
      useDebounce_fire_def setTimeout_def clearTimeout_def due_timers_def drop_due_def
      no_timers_def)

text \<open>
  Claim C4. For every time and value of the mount, every limit and every trace of renders
  and ticks, \<open>useThrottle\<close> with limit \<open>d\<close> logs the same commits, returns the same
  value and holds the same pending timer as \<open>useDebounce\<close> with delay \<open>d\<close>. It does
  not commit at a fixed cadence: with a limit of 100 ms and a value that changes every
  60 ms, nothing is committed during the first 300 ms although the host ran the timers at
  100, 200 and 300 ms; the one commit comes at 340 ms, 100 ms after the last change.
\<close>

theorem useThrottle_is_useDebounce:
  "throttle_commits (useThrottle_run (useThrottle_mount t0 v0 d) evs)
     = debounce_commits (useDebounce_run (useDebounce_mount t0 v0 d) evs)
   \<and> throttledValue (useThrottle_run (useThrottle_mount t0 v0 d) evs)
     = debouncedValue (useDebounce_run (useDebounce_mount t0 v0 d) evs)
   \<and> pending_commits (throttle_host (useThrottle_run (useThrottle_mount t0 v0 d) evs))
     = pending_commits (debounce_host (useDebounce_run (useDebounce_mount t0 v0 d) evs))
   \<and> throttle_commits (useThrottle_run (useThrottle_mount 0 0 100) steady_updates) = []
   \<and> throttle_commits (useThrottle_run (useThrottle_mount 0 0 100) (steady_updates @ [Tick 340]))
     = [(340, 4)]"
proof -
  have "same_policy_state (useThrottle_run (useThrottle_mount t0 v0 d) evs)
          (useDebounce_run (useDebounce_mount t0 v0 d) evs)"
    by (rule same_policy_run [OF same_policy_mount])
  moreover have "same_policy_state (useThrottle_run (useThrottle_mount 0 0 100) es)
          (useDebounce_run (useDebounce_mount 0 0 100) es)" for es :: "nat event list"
    by (rule same_policy_run [OF same_policy_mount])
  ultimately show ?thesis
    by (simp add: same_policy_state_def steady_updates_commits)
qed

theorem useThrottle_is_useDebounce_witness:
  "throttle_commits (useThrottle_run (useThrottle_mount 0 (7::nat) 50) [Tick 49, Tick 50, Tick 51])
     = [(50, 7)]"
  using useThrottle_is_useDebounce [of 0 "7::nat" 50 "[Tick 49, Tick 50, Tick 51]"]
  by (simp add: useDebounce_run_def useDebounce_mount_def
      useDebounce_effect_def useDebounce_tick_def
      useDebounce_fire_def setTimeout_def due_timers_def drop_due_def no_timers_def)

subsection \<open>Cancellation: useFetch, useAxios and the timer of useDebounce\<close>

text \<open>
  Claim C1 as stated: a result that arrives after the adapter was deactivated or the request
  cancelled leaves the state cell as it was. It fails for both hooks it names.
  \<open>useFetch\<close>: mounted with url \<open>/a\<close> and rendered again with \<open>/b\<close>, the hook
  commits the response of the fetch for \<open>/a\<close> when it settles. \<open>useAxios\<close>: a request
  is made, \<open>cancelRequest\<close> is called, and the response is committed all the same, since
  the closure of the request in flight holds \<open>cancelled = false\<close>.
\<close>

theorem stale_result_committed:
  "fetch_cell (useFetch_run (useFetch_mount ''/a'') [Rerender ''/b'', Settled 0 (json_ok (1::int))])
     \<noteq> fetch_cell (useFetch_run (useFetch_mount ''/a'') [Rerender ''/b''])
   \<and> fetch_cell (useFetch_run (useFetch_mount ''/a'') [Rerender ''/b'', Settled 0 (json_ok (1::int))])
     = \<lparr> data = Some 1, loading = False, error = None \<rparr>
   \<and> axios_cell (useAxios_run useAxios_mount [MakeRequest, CancelRequest, Settle 0 (AxiosResponse (42::int))])
     \<noteq> axios_cell (useAxios_run useAxios_mount [MakeRequest, CancelRequest])
   \<and> axios_cell (useAxios_run useAxios_mount [MakeRequest, CancelRequest, Settle 0 (AxiosResponse (42::int))])
     = \<lparr> axios_data = Some 42, axios_loading = False, axios_error = None, cancelled = True \<rparr>"
  by (simp add: useFetch_run_def useFetch_mount_def fetchData_settle_def useFetch_attempt_def
      json_ok_def useFetch_initial_def useAxios_run_def useAxios_mount_def useAxios_initial_def
      makeRequest_begin_def makeRequest_settle_def cancelRequest_def)

text \<open>
  Claim C1, amended to what the code does. \<open>useFetch\<close> has no still-active flag:
  whenever a fetch it started settles, the outcome is committed to the state cell, whatever
  the url of the latest render is. \<open>useAxios\<close> reads \<open>cancelled\<close> once per render: a
  \<open>makeRequest\<close> of a render that has seen \<open>cancelled = true\<close> returns at once,
  issues no request and writes nothing. The timer of \<open>useDebounce\<close> is cancelled by
  the cleanup: after the cleanup has run, no tick of the host commits anything.
\<close>

theorem cancellation_as_implemented:
  "(i < length (fetch_inflight h)
      \<longrightarrow> fetch_cell (useFetch_step (Settled i out) h) = fetchData_settle out)
   \<and> (cancelled (axios_cell a) \<longrightarrow> useAxios_step MakeRequest a = a)
   \<and> debounce_commits (useDebounce_run
        (useDebounce_cleanup (useDebounce_run (useDebounce_mount t0 v0 delay) evs)) (map Tick ts))
      = debounce_commits (useDebounce_run (useDebounce_mount t0 v0 delay) evs)"
  by (simp add: makeRequest_begin_def useDebounce_deactivated_silent)

theorem cancellation_as_implemented_witness:
  "fetch_cell (useFetch_step (Settled 0 (json_ok (1::int)))
      (useFetch_step (Rerender ''/b'') (useFetch_mount ''/a'')))
     = \<lparr> data = Some 1, loading = False, error = None \<rparr>
   \<and> useAxios_step MakeRequest (useAxios_step CancelRequest (useAxios_mount :: int axios_hook))
     = useAxios_step CancelRequest useAxios_mount
   \<and> debounce_commits (useDebounce_run
        (useDebounce_cleanup (useDebounce_run (useDebounce_mount 0 (0::nat) 100) [Render 60 1 100]))
        (map Tick [160, 500])) = []"
  using cancellation_as_implemented [of 0 "useFetch_step (Rerender ''/b'') (useFetch_mount ''/a'')"
      "json_ok (1::int)" "useAxios_step CancelRequest (useAxios_mount :: int axios_hook)"
      0 "0::nat" 100 "[Render 60 1 100]" "[160, 500]"]
  by (simp add: useFetch_mount_def fetchData_settle_def useFetch_attempt_def json_ok_def
      cancelRequest_def useDebounce_run_def useDebounce_mount_def useDebounce_render_def
      useDebounce_effect_def useDebounce_cleanup_def setTimeout_def clearTimeout_def no_timers_def)

subsection \<open>useDragDrop\<close>

text \<open>
  Claim C5 as stated: after \<open>handleDrop\<close> the state has \<open>overDropId = null\<close>. After
  a drag of \<open>a\<close> that enters \<open>b\<close> and is dropped on \<open>b\<close>, it is not null.
\<close>

theorem handleDrop_keeps_overDropId:
  "overDropId (drag_state (useDragDrop_run useDragDrop_initial
      [DragStart ''a'', DragEnter ''b'', Drop ''b''])) \<noteq> None"
  by (simp add: useDragDrop_run_def useDragDrop_initial_def handleDragStart_def
      handleDragEnter_def handleDrop_def Let_def)

text \<open>
  Claim C5, amended. \<open>overDropId\<close> is null after a drag start, is the drop target after
  drag-enter and drag-over, and is set to null (with \<open>isOver\<close> false) by a drag-leave
  of the current candidate, while a drag-leave of another target changes neither. A drop
  sets \<open>isDragging\<close> and \<open>isOver\<close> to false, \<open>draggedItemId\<close> to the transferred
  id and \<open>overDropId\<close> to the drop target, and calls \<open>onDrop\<close> with both ids.
\<close>

theorem useDragDrop_overDropId:
  "overDropId (drag_state (useDragDrop_step (DragStart s) h)) = None
   \<and> overDropId (drag_state (useDragDrop_step (DragEnter d) h)) = Some d
   \<and> overDropId (drag_state (useDragDrop_step (DragOver d) h)) = Some d
   \<and> overDropId (drag_state (useDragDrop_step (DragLeave d) h))
       = (if overDropId (drag_state h) = Some d then None else overDropId (drag_state h))
   \<and> isOver (drag_state (useDragDrop_step (DragLeave d) h))
       = (if overDropId (drag_state h) = Some d then False else isOver (drag_state h))
   \<and> drag_state (useDragDrop_step (Drop d) h)
       = \<lparr> isDragging = False, isOver = False, draggedItemId = Some (dataTransfer h),
           overDropId = Some d \<rparr>
   \<and> onDrop_calls (useDragDrop_step (Drop d) h) = onDrop_calls h @ [(dataTransfer h, d)]"
  by (simp add: handleDragStart_def handleDragEnter_def handleDragOver_def handleDragLeave_def
      handleDrop_def Let_def)

theorem useDragDrop_overDropId_witness:
  "overDropId (drag_state (useDragDrop_step (DragLeave ''b'')
      (useDragDrop_run useDragDrop_initial [DragStart ''a'', DragEnter ''b'']))) = None
   \<and> drag_state (useDragDrop_step (Drop ''b'')
      (useDragDrop_run useDragDrop_initial [DragStart ''a'', DragEnter ''b'']))
     = \<lparr> isDragging = False, isOver = False, draggedItemId = Some ''a'', overDropId = Some ''b'' \<rparr>"
  using useDragDrop_overDropId [of "''a''"
      "useDragDrop_run useDragDrop_initial [DragStart ''a'', DragEnter ''b'']" "''b''"]
  by (simp add: useDragDrop_run_def useDragDrop_initial_def handleDragStart_def
      handleDragEnter_def)

subsection \<open>Unsupported environments: useBattery and useWindowSize\<close>

text \<open>
  Claim C6 as stated: in an environment without \<open>window\<close>, \<open>useWindowSize\<close> reports
  an unsupported state and does not throw. Its first render throws a ReferenceError.
\<close>

theorem useWindowSize_raises_without_window:
  "useWindowSize server_environment = Inl ReferenceError"
  by (simp add: useWindowSize_def server_environment_def)

text \<open>
  Claim C6, amended. When \<open>isReady()\<close> is false (no \<open>window\<close>, or no
  \<open>window.document\<close>), the effect of \<open>useBattery\<close> throws nothing and sets
  \<open>supported\<close> and \<open>loading\<close> to false, leaving the other fields as they were.
  \<open>useWindowSize\<close> has no probe and no flag: with a \<open>window\<close> it returns the inner
  width and height, without one its first render throws a ReferenceError.
\<close>

theorem unsupported_environment_as_implemented:
  "(\<not> isReady env \<longrightarrow>
      useBattery_effect env st = Inr (st\<lparr> supported := False, battery_loading := False \<rparr>, Unsupported))
   \<and> (window env = None \<longrightarrow> useWindowSize env = Inl ReferenceError)
   \<and> (window env = Some w \<longrightarrow>
        useWindowSize env = Inr \<lparr> width = innerWidth w, height = innerHeight w \<rparr>)"
  by (simp add: useBattery_effect_def useWindowSize_def)

theorem unsupported_environment_as_implemented_witness:
  "useBattery_effect server_environment useBattery_initial
     = Inr (\<lparr> supported = False, battery_loading = False, battery_level = None,
              battery_charging = None, battery_chargingTime = None,
              battery_dischargingTime = None \<rparr>, Unsupported)
   \<and> useWindowSize server_environment = Inl ReferenceError
   \<and> useWindowSize (\<lparr> window = Some \<lparr> has_document = True, innerWidth = 1280, innerHeight = 720 \<rparr>,
                       getBattery = None \<rparr> :: nat environment)
     = Inr \<lparr> width = 1280, height = 720 \<rparr>"
  using unsupported_environment_as_implemented [of server_environment useBattery_initial]
    unsupported_environment_as_implemented
      [of "\<lparr> window = Some \<lparr> has_document = True, innerWidth = 1280, innerHeight = 720 \<rparr>,
             getBattery = None \<rparr> :: nat environment" _
          "\<lparr> has_document = True, innerWidth = 1280, innerHeight = 720 \<rparr>"]
  by (simp add: server_environment_def isReady_def useBattery_initial_def)

subsection \<open>Corrupted stored values: useLocalStorage and usePersistedState\<close>

lemma useLocalStorage_never_raises:
  "\<exists>v. useLocalStorage parse localStorage key initialValue = Inr v"
  by (simp add: useLocalStorage_def split: option.split sum.split)

lemma useLocalStorage_corrupted:
  "store key = Some item \<Longrightarrow> parse item = None \<Longrightarrow>
     useLocalStorage parse (Some store) key initialValue = Inr initialValue"
  by (simp add: useLocalStorage_def)

text \<open>
  Claim C7, at a stored value that does not parse. When the item under the key is not
  empty and \<open>JSON.parse\<close> throws on it, \<open>usePersistedState\<close> lets the SyntaxError
  escape from its initial render, while \<open>useLocalStorage\<close> catches it and yields the
  supplied default.
\<close>

theorem usePersistedState_corrupted_raises:
  assumes "store key = Some saved" and "saved \<noteq> []" and "parse saved = None"
  shows "usePersistedState parse (Some store) key initialValue = Inl SyntaxError
       \<and> useLocalStorage parse (Some store) key initialValue = Inr initialValue"
  using assms by (simp add: usePersistedState_def useLocalStorage_def)

theorem usePersistedState_corrupted_raises_witness:
  "usePersistedState parse_boolean (Some [''dark'' \<mapsto> ''{broken'']) ''dark'' False = Inl SyntaxError
   \<and> useLocalStorage parse_boolean (Some [''dark'' \<mapsto> ''{broken'']) ''dark'' False = Inr False"
  using usePersistedState_corrupted_raises
    [of "[''dark'' \<mapsto> ''{broken'']" "''dark''" "''{broken''" parse_boolean False]
  by (simp add: parse_boolean_def)

subsection \<open>Residual observations: useResizeObserver\<close>

lemma fresh_not_observed:
  "fresh_observer d \<Longrightarrow> (next_fresh d, n) \<notin> set (observations d)"
  by (auto simp: fresh_observer_def list_all_iff)

lemma filter_fresh_observations:
  "fresh_observer d \<Longrightarrow> filter (\<lambda>x. x \<noteq> (next_fresh d, m)) (observations d) = observations d"
  by (auto simp: fresh_observer_def list_all_iff filter_id_conv)

text \<open>
  Claim C8, at a ref that changed between setup and teardown. When \<open>ref.current\<close> is
  the node \<open>n\<close> at setup and is null or another node at teardown, the setup and teardown
  of \<open>useResizeObserver\<close> leave one more observation than there was: that of \<open>n\<close>
  by the observer the effect created.
\<close>

theorem useResizeObserver_stale_ref:
  assumes "fresh_observer d" and "ref_at_teardown \<noteq> Some n"
  shows "observations (useResizeObserver_lifecycle (Some n) ref_at_teardown d)
           = observations d @ [(next_fresh d, n)]"
proof (cases ref_at_teardown)
  case None
  with fresh_not_observed [OF assms(1), of n] show ?thesis
    by (simp add: useResizeObserver_lifecycle_def useResizeObserver_effect_def
        useResizeObserver_cleanup_def observe_def Let_def)
next
  case (Some m)
  with assms(2) have "m \<noteq> n" by simp
  with Some fresh_not_observed [OF assms(1), of n] filter_fresh_observations [OF assms(1), of m]
  show ?thesis
    by (simp add: useResizeObserver_lifecycle_def useResizeObserver_effect_def
        useResizeObserver_cleanup_def observe_def unobserve_def Let_def)
qed

theorem useResizeObserver_stale_ref_witness:
  "observations (useResizeObserver_lifecycle (Some 1) (Some 2) empty_dom) = [(0, 1)]
   \<and> observations (useResizeObserver_lifecycle (Some 1) None empty_dom) = [(0, 1)]"
  using useResizeObserver_stale_ref [of empty_dom "Some 2" 1]
    useResizeObserver_stale_ref [of empty_dom None 1]
  by (simp add: empty_dom_def fresh_observer_def)

text \<open>
  With an unchanged ref the observation is removed; \<open>useIntersectionObserver\<close>, which
  unobserves the node it captured, and \<open>useHover\<close>, which removes its listeners from
  the node it captured, leave nothing behind whatever the ref holds at teardown.
\<close>

lemma useResizeObserver_same_ref:
  "fresh_observer d \<Longrightarrow>
     observations (useResizeObserver_lifecycle ref_current ref_current d) = observations d"
  using fresh_not_observed [of d] filter_fresh_observations [of d]
  by (cases ref_current)
     (simp_all add: useResizeObserver_lifecycle_def useResizeObserver_effect_def
        useResizeObserver_cleanup_def observe_def unobserve_def Let_def)

lemma useIntersectionObserver_restores:
  "fresh_observer d \<Longrightarrow>
     observations (useIntersectionObserver_lifecycle ref_at_setup ref_at_teardown d) = observations d"
  using fresh_not_observed [of d] filter_fresh_observations [of d]
  by (cases ref_at_setup)
     (simp_all add: useIntersectionObserver_lifecycle_def useIntersectionObserver_effect_def
        useIntersectionObserver_cleanup_def observe_def unobserve_def Let_def)

lemma useHover_restores:
  assumes "fresh_listeners d n"
  shows "listeners (useHover_cleanup (fst (useHover_effect (Some n) d))
                     (snd (useHover_effect (Some n) d))) = listeners d"
proof -
  have a: "(ty, next_fresh d) \<notin> set (listeners d n)" "(ty, Suc (next_fresh d)) \<notin> set (listeners d n)" for ty
    using assms by (auto simp: fresh_listeners_def list_all_iff)
  have f: "filter (\<lambda>x. x \<noteq> (ty, next_fresh d)) (listeners d n) = listeners d n"
    "filter (\<lambda>x. x \<noteq> (ty, Suc (next_fresh d))) (listeners d n) = listeners d n" for ty
    using a by (auto simp: filter_id_conv)
  show ?thesis
    by (simp add: useHover_effect_def Let_def addEventListener_def removeEventListener_def a f)
qed

subsection \<open>useStep\<close>

lemma useStep_command_in_range:
  "steps \<noteq> [] \<Longrightarrow> step_in_range steps i \<Longrightarrow> step_in_range steps (useStep_command steps c i)"
  by (cases c)
     (auto simp: step_in_range_def useStep_next_def useStep_previous_def useStep_reset_def)

lemma useStep_run_in_range:
  "steps \<noteq> [] \<Longrightarrow> step_in_range steps i \<Longrightarrow> step_in_range steps (useStep_run steps i cs)"
  by (induction cs arbitrary: i) (simp_all add: useStep_command_in_range)

lemma step_in_range_initial: "steps \<noteq> [] \<Longrightarrow> step_in_range steps useStep_initial"
  by (cases steps) (simp_all add: step_in_range_def useStep_initial_def)

text \<open>
  Claim C9. For a non-empty list of steps, the index reached from the initial index 0 by
  any sequence of next, previous and reset commands lies in \<open>[0, steps.length - 1]\<close>, so
  the current step is always a member of the list; next at the last index stays at the
  last index, previous at index 0 stays at 0, and reset gives 0 from any index.
\<close>

theorem useStep_index_bounded:
  assumes "steps \<noteq> []"
  shows "0 \<le> useStep_run steps useStep_initial cs
       \<and> useStep_run steps useStep_initial cs \<le> int (length steps) - 1
       \<and> currentStep (useStep steps (useStep_run steps useStep_initial cs)) \<noteq> None
       \<and> useStep_next steps (int (length steps) - 1) = int (length steps) - 1
       \<and> useStep_previous 0 = 0
       \<and> useStep_reset i = 0"
proof -
  have "step_in_range steps (useStep_run steps useStep_initial cs)"
    using assms by (simp add: useStep_run_in_range step_in_range_initial)
  then show ?thesis
    by (simp add: step_in_range_def useStep_def useStep_next_def useStep_previous_def
        useStep_reset_def)
qed

theorem useStep_index_bounded_witness:
  "[''a'', ''b'', ''c''] \<noteq> []
   \<and> useStep_run [''a'', ''b'', ''c''] useStep_initial [Next, Next, Next, Next, Previous] = 1
   \<and> currentStep (useStep [''a'', ''b'', ''c''] 1) = Some ''b''
   \<and> useStep_next [''a'', ''b'', ''c''] 2 = 2"
  using useStep_index_bounded [of "[''a'', ''b'', ''c'']" "[Next, Next, Next, Next, Previous]" 5]
  by (simp add: useStep_initial_def useStep_next_def useStep_previous_def useStep_def)

subsection \<open>useAdvReducer\<close>

text \<open>
  For an action type that is an own entry of the table the reducer returns the handler's
  result, and for a type that is neither an own entry nor a name inherited from
  \<open>Object.prototype\<close> it returns the state; a missing state is \<open>initialState\<close>.
\<close>

lemma useAdvReducer_own_entry:
  "actions (action_type a) = Some h \<Longrightarrow>
     useAdvReducer initialState actions (Some s) a = State (h s a)"
  by (simp add: useAdvReducer_def property_lookup_def)

lemma useAdvReducer_no_entry:
  "actions (action_type a) = None \<Longrightarrow> \<not> inherited_name (action_type a) \<Longrightarrow>
     useAdvReducer initialState actions (Some s) a = State s"
  by (simp add: useAdvReducer_def property_lookup_def inherited_name_def)

lemma useAdvReducer_default_state:
  "useAdvReducer initialState actions None a = useAdvReducer initialState actions (Some initialState) a"
  by (simp add: useAdvReducer_def)

text \<open>
  Claim C10, at an action type that has no entry in the table but names a member of
  \<open>Object.prototype\<close>. With an empty table and the state 7, the action of type
  \<open>toString\<close> does not return the state: the lookup finds the inherited method, which is
  truthy, and the reducer returns what that method returns. The action of type
  \<open>__proto__\<close> finds the prototype object and the call raises a TypeError. An action
  type that is not inherited, such as \<open>increment\<close>, returns the state.
\<close>

theorem useAdvReducer_inherited_type:
  "useAdvReducer (0::int) Map.empty (Some 7) \<lparr> action_type = ''toString'', payload = () \<rparr>
     = StringValue ''[object Object]''
   \<and> useAdvReducer (0::int) Map.empty (Some 7) \<lparr> action_type = ''__proto__'', payload = () \<rparr>
     = Threw TypeError
   \<and> useAdvReducer (0::int) Map.empty (Some 7) \<lparr> action_type = ''increment'', payload = () \<rparr>
     = State 7"
  by (simp add: useAdvReducer_def property_lookup_def Object_prototype_methods_def)

end
